theory Spec2Isabelle
  imports Main "HOL-Library.Sublist"
begin

section \<open>The MCP client: data model\<close>

text \<open>
  The program is \<^verbatim>\<open>src/mcp_client.py\<close>: a command-line client that connects to a
  tool-providing server, asks a chat model for an answer and executes the tool calls the
  model requests. A Python \<^verbatim>\<open>str\<close> is modelled as the list of its UTF-8 bytes.
  The methods modelled are \<^verbatim>\<open>connect_to_server\<close>, \<^verbatim>\<open>process_query\<close> and
  \<^verbatim>\<open>chat_loop\<close>; \<^verbatim>\<open>main\<close> and \<^verbatim>\<open>cleanup\<close> only call them and close the
  connection.
\<close>

subsection \<open>Exceptions\<close>

text \<open>
  Every exception the code can see is a value. \<open>ValueError\<close>, \<open>RuntimeError\<close>,
  \<open>IndexError\<close> and \<open>AttributeError\<close> are the classes the code raises itself (with
  \<^verbatim>\<open>raise\<close>, by \<^verbatim>\<open>xs[0]\<close> on an empty list, by a method call on \<^verbatim>\<open>None\<close>).
  \<open>OtherException cls msg\<close> is any other subclass of \<^verbatim>\<open>Exception\<close> that a collaborator
  raises (\<^verbatim>\<open>json.JSONDecodeError\<close>, \<^verbatim>\<open>McpError\<close>, \<^verbatim>\<open>openai.APIError\<close>, \<^verbatim>\<open>EOFError\<close>),
  and \<open>BaseOnly cls msg\<close> is an exception that derives from \<^verbatim>\<open>BaseException\<close> but not
  from \<^verbatim>\<open>Exception\<close> (\<^verbatim>\<open>KeyboardInterrupt\<close>, \<^verbatim>\<open>SystemExit\<close>, \<^verbatim>\<open>asyncio.CancelledError\<close>).
\<close>

datatype error =
    ValueError string
  | RuntimeError string
  | IndexError string
  | AttributeError string
  | OtherException string string
  | BaseOnly string string

text \<open>\<^verbatim>\<open>isinstance(e, Exception)\<close>: what \<^verbatim>\<open>except Exception\<close> catches.\<close>

fun is_Exception :: "error \<Rightarrow> bool" where
  "is_Exception (BaseOnly cls msg) = False"
| "is_Exception e = True"

text \<open>\<^verbatim>\<open>str(e)\<close>: the message of the exception.\<close>

fun str_error :: "error \<Rightarrow> string" where
  "str_error (ValueError msg) = msg"
| "str_error (RuntimeError msg) = msg"
| "str_error (IndexError msg) = msg"
| "str_error (AttributeError msg) = msg"
| "str_error (OtherException cls msg) = msg"
| "str_error (BaseOnly cls msg) = msg"

subsection \<open>Messages of the conversation\<close>

text \<open>
  A message is a Python dict. Its keys are the fields of the record; a key the dict does
  not have (\<^verbatim>\<open>tool_calls\<close> outside assistant messages, \<^verbatim>\<open>tool_call_id\<close> outside tool
  messages) is \<open>None\<close>, and so is the \<^verbatim>\<open>"content": None\<close> of an assistant message.
\<close>

record tool_call_function =
  fc_name :: string
  fc_arguments :: string

record tool_call =
  tc_id :: string
  tc_type :: string
  tc_function :: tool_call_function

record message =
  role :: string
  content :: "string option"
  tool_calls :: "tool_call list option"
  tool_call_id :: "string option"

subsection \<open>Tools, function schemas, model outputs, tool results\<close>

text \<open>
  The input schema of a tool and the decoded arguments of a call are JSON values the
  client never looks into: their type is the parameter \<open>'j\<close>.
\<close>

record 'j tool =
  tool_name :: string
  tool_description :: "string option"
  inputSchema :: 'j

record 'j function_schema =
  fn_type :: string
  fn_name :: string
  fn_description :: "string option"
  fn_parameters :: 'j
  fn_strict :: bool

text \<open>
  An output item of the model. The code reads \<^verbatim>\<open>type\<close>, then \<^verbatim>\<open>content[0].text\<close> of
  a message or \<^verbatim>\<open>call_id\<close>, \<^verbatim>\<open>name\<close>, \<^verbatim>\<open>arguments\<close> of a function call;
  \<open>out_content\<close> is the list of the texts of the content parts.
\<close>

record output_item =
  out_type :: string
  out_content :: "string list"
  out_call_id :: string
  out_name :: string
  out_arguments :: string

text \<open>
  A content segment of a tool result: a \<^verbatim>\<open>TextContent\<close> with its text, or a segment of
  another class, of type \<open>'o\<close>.
\<close>

datatype 'o content_segment = TextContent string | NonText 'o

section \<open>Pure parts of \<^verbatim>\<open>process_query\<close>\<close>

definition system_prompt :: string where
  "system_prompt =
     ''You are a helpful assistant. If a relevant function is available, always use the function call system '' @
     ''instead of explaining it. Do not describe or suggest function calls '' @
     [CHR 0xE2, CHR 0x80, CHR 0x94] @ '' just call the function directly.''"

definition system_message :: message where
  "system_message =
     \<lparr>role = ''system'', content = Some system_prompt, tool_calls = None, tool_call_id = None\<rparr>"

definition user_message :: "string \<Rightarrow> message" where
  "user_message query =
     \<lparr>role = ''user'', content = Some query, tool_calls = None, tool_call_id = None\<rparr>"

definition initial_messages :: "string \<Rightarrow> message list" where
  "initial_messages query = [system_message, user_message query]"

text \<open>Lines 73 to 81: one function schema per tool, appended in the order of the tools.\<close>

definition tool_function :: "'j tool \<Rightarrow> 'j function_schema" where
  "tool_function t =
     \<lparr>fn_type = ''function'', fn_name = tool_name t, fn_description = tool_description t,
      fn_parameters = inputSchema t, fn_strict = False\<rparr>"

fun functions_loop :: "'j function_schema list \<Rightarrow> 'j tool list \<Rightarrow> 'j function_schema list" where
  "functions_loop functions [] = functions"
| "functions_loop functions (t # ts) = functions_loop (functions @ [tool_function t]) ts"

definition build_functions :: "'j tool list \<Rightarrow> 'j function_schema list" where
  "build_functions ts = functions_loop [] ts"

text \<open>Lines 104 to 117 and 134 to 138: the two messages of a tool round.\<close>

definition assistant_message :: "output_item \<Rightarrow> message" where
  "assistant_message output =
     \<lparr>role = ''assistant'', content = None,
      tool_calls = Some [\<lparr>tc_id = out_call_id output, tc_type = ''function'',
                          tc_function = \<lparr>fc_name = out_name output,
                                          fc_arguments = out_arguments output\<rparr>\<rparr>],
      tool_call_id = None\<rparr>"

definition tool_output_message :: "output_item \<Rightarrow> string \<Rightarrow> message" where
  "tool_output_message output tool_result_text =
     \<lparr>role = ''tool'', content = Some tool_result_text, tool_calls = None,
      tool_call_id = Some (out_call_id output)\<rparr>"

text \<open>
  Lines 126 to 131: the text of a tool result, accumulated segment by segment. \<open>str\<close>
  is Python's \<^verbatim>\<open>str()\<close> on a segment that is not a \<^verbatim>\<open>TextContent\<close>.
\<close>

fun result_text_loop :: "('o \<Rightarrow> string) \<Rightarrow> string \<Rightarrow> 'o content_segment list \<Rightarrow> string" where
  "result_text_loop str tool_result_text [] = tool_result_text"
| "result_text_loop str tool_result_text (TextContent t # cs) =
     result_text_loop str (tool_result_text @ t) cs"
| "result_text_loop str tool_result_text (NonText c # cs) =
     result_text_loop str (tool_result_text @ str c) cs"

definition extract_tool_result_text :: "('o \<Rightarrow> string) \<Rightarrow> 'o content_segment list \<Rightarrow> string" where
  "extract_tool_result_text str cs = result_text_loop str [] cs"

text \<open>What one segment contributes: its text, or its rendering.\<close>

fun segment_text :: "('o \<Rightarrow> string) \<Rightarrow> 'o content_segment \<Rightarrow> string" where
  "segment_text str (TextContent t) = t"
| "segment_text str (NonText c) = str c"

text \<open>Python's \<^verbatim>\<open>sep.join(xs)\<close>.\<close>

fun join :: "string \<Rightarrow> string list \<Rightarrow> string" where
  "join sep [] = []"
| "join sep [x] = x"
| "join sep (x # y # ys) = x @ sep @ join sep (y # ys)"

section \<open>The collaborators and the world\<close>

text \<open>
  The tool provider, the model API, the JSON decoder and the console are not code of this
  program. Each is a parameter: a function of the state \<open>'e\<close> of the outside world that
  returns its answer, or the exception it raises, and the next state of the world.
  \<^verbatim>\<open>json.loads\<close> and \<^verbatim>\<open>str\<close> are pure.
\<close>

record ('e, 'j, 'o) collaborators =
  stdio_client :: "string \<Rightarrow> string list \<Rightarrow> 'e \<Rightarrow> error option \<times> 'e"
  client_session :: "'e \<Rightarrow> error option \<times> 'e"
  initialize :: "'e \<Rightarrow> error option \<times> 'e"
  list_tools :: "'e \<Rightarrow> (error + 'j tool list) \<times> 'e"
  responses_create ::
    "string \<Rightarrow> message list \<Rightarrow> 'j function_schema list \<Rightarrow> string \<Rightarrow> 'e
      \<Rightarrow> (error + output_item list) \<times> 'e"
  json_loads :: "string \<Rightarrow> error + 'j"
  call_tool :: "string \<Rightarrow> 'j \<Rightarrow> 'e \<Rightarrow> (error + 'o content_segment list) \<times> 'e"
  str_segment :: "'o \<Rightarrow> string"
  input_line :: "string \<Rightarrow> 'e \<Rightarrow> (error + string) \<times> 'e"

text \<open>
  Every call the client makes to a collaborator is recorded, in order, with its arguments.
  A \<^verbatim>\<open>print\<close> records the objects printed.
\<close>

datatype printed = PStr string | PStrList "string list"

datatype 'j event =
    StdioClient string "string list"
  | ClientSession
  | Initialize
  | ListTools
  | ResponsesCreate string "message list" "'j function_schema list" string
  | CallTool string 'j
  | Input string
  | Print "printed list"

text \<open>
  The world: the state of the collaborators, whether \<^verbatim>\<open>self.session\<close> is set (it is
  \<^verbatim>\<open>None\<close> until \<^verbatim>\<open>connect_to_server\<close> has entered the \<^verbatim>\<open>ClientSession\<close>), and the
  calls made so far.
\<close>

record ('e, 'j) world =
  env :: 'e
  session :: bool
  trace :: "'j event list"

definition emit :: "'j event \<Rightarrow> 'e \<Rightarrow> ('e, 'j) world \<Rightarrow> ('e, 'j) world" where
  "emit ev e w = w\<lparr>env := e, trace := trace w @ [ev]\<rparr>"

definition do_print :: "printed list \<Rightarrow> ('e, 'j) world \<Rightarrow> ('e, 'j) world" where
  "do_print objs w = w\<lparr>trace := trace w @ [Print objs]\<rparr>"

definition do_input ::
  "('e, 'j, 'o) collaborators \<Rightarrow> string \<Rightarrow> ('e, 'j) world \<Rightarrow> (error + string) \<times> ('e, 'j) world" where
  "do_input ops prompt w =
     (case input_line ops prompt (env w) of (r, e) \<Rightarrow> (r, emit (Input prompt) e w))"



text \<open>A method called on \<^verbatim>\<open>self.session\<close> while it is \<^verbatim>\<open>None\<close> raises.\<close>

definition no_session :: "string \<Rightarrow> error" where
  "no_session method =
     AttributeError ([CHR 0x27] @ ''NoneType'' @ [CHR 0x27] @ '' object has no attribute '' @
                     [CHR 0x27] @ method @ [CHR 0x27])"


definition do_list_tools ::
  "('e, 'j, 'o) collaborators \<Rightarrow> ('e, 'j) world \<Rightarrow> (error + 'j tool list) \<times> ('e, 'j) world" where
  "do_list_tools ops w =
     (if \<not> session w then (Inl (no_session ''list_tools''), w)
      else case list_tools ops (env w) of (r, e) \<Rightarrow> (r, emit ListTools e w))"

definition do_call_tool ::
  "('e, 'j, 'o) collaborators \<Rightarrow> string \<Rightarrow> 'j \<Rightarrow> ('e, 'j) world
    \<Rightarrow> (error + 'o content_segment list) \<times> ('e, 'j) world" where
  "do_call_tool ops name args w =
     (if \<not> session w then (Inl (no_session ''call_tool''), w)
      else case call_tool ops name args (env w) of
             (r, e) \<Rightarrow> (r, emit (CallTool name args) e w))"

definition do_responses_create ::
  "('e, 'j, 'o) collaborators \<Rightarrow> string \<Rightarrow> message list \<Rightarrow> 'j function_schema list \<Rightarrow> string
    \<Rightarrow> ('e, 'j) world \<Rightarrow> (error + output_item list) \<times> ('e, 'j) world" where
  "do_responses_create ops model messages functions tool_choice w =
     (case responses_create ops model messages functions tool_choice (env w) of
        (r, e) \<Rightarrow> (r, emit (ResponsesCreate model messages functions tool_choice) e w))"

section \<open>\<^verbatim>\<open>process_query\<close>: the orchestration loop\<close>

text \<open>How one pass through the body of \<^verbatim>\<open>while True\<close> ends.\<close>

datatype control = Continue | Break | Raise error

text \<open>
  Lines 86 to 142, one pass: the model is called with the messages and the function
  schemas; the first output item decides. The pass returns how it ended and the values
  of \<^verbatim>\<open>messages\<close> and \<^verbatim>\<open>final_text\<close> when it ended.
\<close>

definition index_error :: error where
  "index_error = IndexError ''list index out of range''"

definition round_body ::
  "('e, 'j, 'o) collaborators \<Rightarrow> 'j function_schema list \<Rightarrow> message list \<Rightarrow> string list
    \<Rightarrow> ('e, 'j) world \<Rightarrow> control \<times> message list \<times> string list \<times> ('e, 'j) world" where
  "round_body ops functions messages final_text w =
     (case do_responses_create ops ''gpt-4'' messages functions ''auto'' w of
        (Inl err, w1) \<Rightarrow> (Raise err, messages, final_text, w1)
      | (Inr outputs, w1) \<Rightarrow>
          (case outputs of
             [] \<Rightarrow> (Raise index_error, messages, final_text, w1)
           | output # rest \<Rightarrow>
               if out_type output = ''message'' then
                 (case out_content output of
                    [] \<Rightarrow> (Raise index_error, messages, final_text, w1)
                  | message_content # parts \<Rightarrow>
                      (Break, messages, final_text @ [message_content], w1))
               else if out_type output = ''function_call'' then
                 (let messages1 = messages @ [assistant_message output] in
                  case json_loads ops (out_arguments output) of
                    Inl err \<Rightarrow> (Raise err, messages1, final_text, w1)
                  | Inr tool_args \<Rightarrow>
                      (case do_call_tool ops (out_name output) tool_args w1 of
                         (Inl err, w2) \<Rightarrow> (Raise err, messages1, final_text, w2)
                       | (Inr result, w2) \<Rightarrow>
                           (Continue,
                            messages1 @ [tool_output_message output
                                           (extract_tool_result_text (str_segment ops) result)],
                            final_text, w2)))
               else (Raise (RuntimeError (''Unexpected output type: '' @ out_type output)),
                     messages, final_text, w1)))"

text \<open>
  The loop \<^verbatim>\<open>while True\<close> has no bound on its rounds: it is a partial function, and
  \<open>None\<close> is the run that never leaves the loop. A run that leaves it returns the last
  pass: a \<open>Break\<close> or a \<open>Raise\<close>.
\<close>

partial_function (option) while_true ::
  "('e, 'j, 'o) collaborators \<Rightarrow> 'j function_schema list \<Rightarrow> message list \<Rightarrow> string list
    \<Rightarrow> ('e, 'j) world \<Rightarrow> (control \<times> message list \<times> string list \<times> ('e, 'j) world) option" where
  "while_true ops functions messages final_text w =
     (case round_body ops functions messages final_text w of
        (c, messages', final_text', w') \<Rightarrow>
          if c = Continue then while_true ops functions messages' final_text' w'
          else Some (c, messages', final_text', w'))"

text \<open>
  \<^verbatim>\<open>process_query\<close>, with the final value of the local \<^verbatim>\<open>messages\<close> returned beside the
  result so that the conversation can be observed: the answer or the exception, the
  messages, the world.
\<close>

definition process_query_run ::
  "('e, 'j, 'o) collaborators \<Rightarrow> string \<Rightarrow> ('e, 'j) world
    \<Rightarrow> ((error + string) \<times> message list \<times> ('e, 'j) world) option" where
  "process_query_run ops query w =
     (let messages = initial_messages query in
      case do_list_tools ops w of
        (Inl err, w1) \<Rightarrow> Some (Inl err, messages, w1)
      | (Inr tools, w1) \<Rightarrow>
          (let functions = build_functions tools in
           case while_true ops functions messages [] w1 of
             None \<Rightarrow> None
           | Some (c, messages', final_text, w2) \<Rightarrow>
               (case c of
                  Raise err \<Rightarrow> Some (Inl err, messages', w2)
                | _ \<Rightarrow> Some (Inr (join [CHR 0x0A] final_text), messages', w2))))"

definition process_query ::
  "('e, 'j, 'o) collaborators \<Rightarrow> string \<Rightarrow> ('e, 'j) world
    \<Rightarrow> ((error + string) \<times> ('e, 'j) world) option" where
  "process_query ops query w =
     map_option (\<lambda>(r, messages, w'). (r, w')) (process_query_run ops query w)"

text \<open>
  The state of the loop after at most \<open>n\<close> passes: \<open>Continue\<close> when the \<open>n\<close> passes all
  went on to the next (the loop is about to call the model again), and the last pass
  when one of them left the loop.
\<close>

fun run_rounds ::
  "nat \<Rightarrow> ('e, 'j, 'o) collaborators \<Rightarrow> 'j function_schema list \<Rightarrow> message list \<Rightarrow> string list
    \<Rightarrow> ('e, 'j) world \<Rightarrow> control \<times> message list \<times> string list \<times> ('e, 'j) world" where
  "run_rounds 0 ops functions messages final_text w = (Continue, messages, final_text, w)"
| "run_rounds (Suc n) ops functions messages final_text w =
     (case round_body ops functions messages final_text w of
        (c, messages', final_text', w') \<Rightarrow>
          if c = Continue then run_rounds n ops functions messages' final_text' w'
          else (c, messages', final_text', w'))"

definition messages_of ::
  "control \<times> message list \<times> string list \<times> ('e, 'j) world \<Rightarrow> message list" where
  "messages_of st = fst (snd st)"

definition world_of ::
  "control \<times> message list \<times> string list \<times> ('e, 'j) world \<Rightarrow> ('e, 'j) world" where
  "world_of st = snd (snd (snd st))"

section \<open>Properties of a conversation\<close>

text \<open>The tool invocations an assistant message records.\<close>

definition calls_of :: "message \<Rightarrow> tool_call list" where
  "calls_of m = (case tool_calls m of None \<Rightarrow> [] | Some tcs \<Rightarrow> tcs)"

text \<open>
  The message at position \<open>i\<close> carries the call identifier of an invocation recorded in
  an assistant message at a position before \<open>i\<close>.
\<close>

definition answers_earlier_call :: "message list \<Rightarrow> nat \<Rightarrow> bool" where
  "answers_earlier_call ms i =
     (\<exists>m \<in> set (take i ms). role m = ''assistant''
        \<and> (\<exists>tc \<in> set (calls_of m). tool_call_id (ms ! i) = Some (tc_id tc)))"

definition tool_references_ok :: "message list \<Rightarrow> bool" where
  "tool_references_ok ms =
     (\<forall>i \<in> set [0..<length ms]. role (ms ! i) = ''tool'' \<longrightarrow> answers_earlier_call ms i)"

text \<open>The system-role messages of a conversation are those with role \<^verbatim>\<open>system\<close>.\<close>

definition is_system :: "message \<Rightarrow> bool" where
  "is_system m = (role m = ''system'')"

text \<open>The calls a run has added to the trace, and the inputs of the model calls among them.\<close>

definition new_events :: "('e, 'j) world \<Rightarrow> ('e, 'j) world \<Rightarrow> 'j event list" where
  "new_events w w' = drop (length (trace w)) (trace w')"

fun model_inputs :: "'j event list \<Rightarrow> (message list \<times> 'j function_schema list) list" where
  "model_inputs [] = []"
| "model_inputs (ResponsesCreate model messages functions tool_choice # evs) =
     (messages, functions) # model_inputs evs"
| "model_inputs (ev # evs) = model_inputs evs"

section \<open>\<^verbatim>\<open>chat_loop\<close>: the interactive prompt\<close>

text \<open>
  The code points Python's \<^verbatim>\<open>str.strip()\<close> removes, each as its UTF-8 bytes: U+0009 to
  U+000D, U+001C to U+0020, U+0085, U+00A0, U+1680, U+2000 to U+200A, U+2028, U+2029,
  U+202F, U+205F, U+3000.
\<close>

definition whitespace :: "string list" where
  "whitespace =
     [[CHR 0x09], [CHR 0x0A], [CHR 0x0B], [CHR 0x0C], [CHR 0x0D],
      [CHR 0x1C], [CHR 0x1D], [CHR 0x1E], [CHR 0x1F], [CHR 0x20],
      [CHR 0xC2, CHR 0x85], [CHR 0xC2, CHR 0xA0], [CHR 0xE1, CHR 0x9A, CHR 0x80],
      [CHR 0xE2, CHR 0x80, CHR 0x80], [CHR 0xE2, CHR 0x80, CHR 0x81],
      [CHR 0xE2, CHR 0x80, CHR 0x82], [CHR 0xE2, CHR 0x80, CHR 0x83],
      [CHR 0xE2, CHR 0x80, CHR 0x84], [CHR 0xE2, CHR 0x80, CHR 0x85],
      [CHR 0xE2, CHR 0x80, CHR 0x86], [CHR 0xE2, CHR 0x80, CHR 0x87],
      [CHR 0xE2, CHR 0x80, CHR 0x88], [CHR 0xE2, CHR 0x80, CHR 0x89],
      [CHR 0xE2, CHR 0x80, CHR 0x8A], [CHR 0xE2, CHR 0x80, CHR 0xA8],
      [CHR 0xE2, CHR 0x80, CHR 0xA9], [CHR 0xE2, CHR 0x80, CHR 0xAF],
      [CHR 0xE2, CHR 0x81, CHR 0x9F], [CHR 0xE3, CHR 0x80, CHR 0x80]]"

text \<open>Remove, from the front of a string, every leading occurrence of one of the sequences.\<close>

fun drop_leading :: "string list \<Rightarrow> string \<Rightarrow> string" where
  "drop_leading seqs [] = []"
| "drop_leading seqs (c # cs) =
     (case List.find (\<lambda>ws. prefix ws (c # cs)) seqs of
        None \<Rightarrow> c # cs
      | Some ws \<Rightarrow> drop_leading seqs (drop (length ws - 1) cs))"

text \<open>
  \<^verbatim>\<open>str.strip()\<close>: leading and trailing whitespace removed. UTF-8 is self-synchronising,
  so the trailing whitespace is the leading whitespace of the reversed bytes.
\<close>

definition strip :: "string \<Rightarrow> string" where
  "strip s = rev (drop_leading (map rev whitespace) (rev (drop_leading whitespace s)))"

text \<open>
  \<^verbatim>\<open>str.lower()\<close> on the ASCII letters. Python also lowers letters beyond ASCII, and
  none of them becomes a letter of \<^verbatim>\<open>quit\<close> alone (U+212A becomes \<^verbatim>\<open>k\<close>, U+0130 becomes
  \<^verbatim>\<open>i\<close> followed by U+0307); their bytes are left as they are here, which decides the
  comparison with \<^verbatim>\<open>"quit"\<close> the same way.
\<close>

definition lower_char :: "char \<Rightarrow> char" where
  "lower_char c =
     (let n = (of_char c :: nat) in if 65 \<le> n \<and> n \<le> 90 then char_of (n + 32) else c)"

definition lower :: "string \<Rightarrow> string" where
  "lower s = map lower_char s"

text \<open>
  Lines 161 and 162: \<^verbatim>\<open>except Exception\<close> prints the exception and lets the loop go on;
  an exception that is not an \<^verbatim>\<open>Exception\<close> leaves the loop.
\<close>

definition except_Exception :: "error \<Rightarrow> ('e, 'j) world \<Rightarrow> control \<times> ('e, 'j) world" where
  "except_Exception err w =
     (if is_Exception err
      then (Continue, do_print [PStr (CHR 0x0A # ''Error: '' @ str_error err)] w)
      else (Raise err, w))"

text \<open>
  Lines 152 to 162, one pass through \<^verbatim>\<open>while True\<close>. \<open>None\<close>: the query never
  returns.
\<close>

definition query_prompt :: string where
  "query_prompt = CHR 0x0A # ''Query: ''"

definition chat_iteration ::
  "('e, 'j, 'o) collaborators \<Rightarrow> ('e, 'j) world \<Rightarrow> (control \<times> ('e, 'j) world) option" where
  "chat_iteration ops w =
     (case do_input ops query_prompt w of
        (Inl err, w1) \<Rightarrow> Some (except_Exception err w1)
      | (Inr line, w1) \<Rightarrow>
          (let query = strip line in
           if lower query = ''quit'' then Some (Break, w1)
           else case process_query ops query w1 of
                  None \<Rightarrow> None
                | Some (Inl err, w2) \<Rightarrow> Some (except_Exception err w2)
                | Some (Inr response, w2) \<Rightarrow>
                    Some (Continue, do_print [PStr (CHR 0x0A # response)] w2)))"

partial_function (option) chat_while ::
  "('e, 'j, 'o) collaborators \<Rightarrow> ('e, 'j) world \<Rightarrow> (control \<times> ('e, 'j) world) option" where
  "chat_while ops w =
     (case chat_iteration ops w of
        None \<Rightarrow> None
      | Some (c, w') \<Rightarrow> if c = Continue then chat_while ops w' else Some (c, w'))"

text \<open>
  \<^verbatim>\<open>chat_loop\<close>: \<open>Some (Break, w)\<close> is the return after \<^verbatim>\<open>quit\<close>, \<open>Some (Raise e, w)\<close>
  an exception that leaves the method, \<open>None\<close> a loop that never ends.
\<close>

definition chat_loop ::
  "('e, 'j, 'o) collaborators \<Rightarrow> ('e, 'j) world \<Rightarrow> (control \<times> ('e, 'j) world) option" where
  "chat_loop ops w =
     chat_while ops
       (do_print [PStr (''Type your queries or '' @ [CHR 0x27] @ ''quit'' @ [CHR 0x27] @ '' to exit.'')]
          (do_print [PStr (CHR 0x0A # ''MCP Client Started!'')] w))"

section \<open>\<^verbatim>\<open>connect_to_server\<close>\<close>



section \<open>A scripted provider, model and console\<close>

text \<open>
  Collaborators to run the client on: the model answers with the next of a list of
  scripted replies, the console reads the next of a list of lines, the provider has one
  tool, and starting the server fails for the command in \<open>broken_command\<close>.
\<close>

record example_env =
  replies :: "output_item list list"
  stdin :: "string list"
  broken_command :: string

definition weather_tool :: "(string \<times> string) list tool" where
  "weather_tool =
     \<lparr>tool_name = ''get_weather'', tool_description = Some ''Weather of a city'',
      inputSchema = [(''city'', ''string'')]\<rparr>"

definition boston_arguments :: string where
  \<open>boston_arguments = ''{"city":"Boston"}''\<close>

definition example_ops :: "(example_env, (string \<times> string) list, nat) collaborators" where
  "example_ops =
     \<lparr>stdio_client = (\<lambda>command args e.
         if command = broken_command e
         then (Some (OtherException ''FileNotFoundError'' ''No such file or directory''), e)
         else (None, e)),
      client_session = (\<lambda>e. (None, e)),
      initialize = (\<lambda>e. (None, e)),
      list_tools = (\<lambda>e. (Inr [weather_tool], e)),
      responses_create = (\<lambda>model messages functions tool_choice e.
         case replies e of
           [] \<Rightarrow> (Inl (OtherException ''APIError'' ''no reply''), e)
         | r # rs \<Rightarrow> (Inr r, e\<lparr>replies := rs\<rparr>)),
      json_loads = (\<lambda>s.
         if s = boston_arguments then Inr [(''city'', ''Boston'')]
         else Inl (OtherException ''JSONDecodeError'' ''Expecting value: line 1 column 1 (char 0)'')),
      call_tool = (\<lambda>name args e. (Inr [TextContent ''72F, '', NonText 0], e)),
      str_segment = (\<lambda>n. ''sunny''),
      input_line = (\<lambda>prompt e.
         case stdin e of
           [] \<Rightarrow> (Inl (OtherException ''EOFError'' ''EOF when reading a line''), e)
         | l # ls \<Rightarrow> (Inr l, e\<lparr>stdin := ls\<rparr>))\<rparr>"

definition function_call :: "string \<Rightarrow> string \<Rightarrow> string \<Rightarrow> output_item" where
  "function_call call_id name arguments =
     \<lparr>out_type = ''function_call'', out_content = [], out_call_id = call_id,
      out_name = name, out_arguments = arguments\<rparr>"

definition plain_message :: "string \<Rightarrow> output_item" where
  "plain_message text =
     \<lparr>out_type = ''message'', out_content = [text], out_call_id = [], out_name = [],
      out_arguments = []\<rparr>"

definition reasoning_item :: output_item where
  "reasoning_item =
     \<lparr>out_type = ''reasoning'', out_content = [], out_call_id = [], out_name = [],
      out_arguments = []\<rparr>"

definition example_world ::
  "output_item list list \<Rightarrow> string list \<Rightarrow> (example_env, (string \<times> string) list) world" where
  "example_world rs ls =
     \<lparr>env = \<lparr>replies = rs, stdin = ls, broken_command = ''node''\<rparr>, session = True, trace = []\<rparr>"


definition boston_query :: string where
  "boston_query = ''What is the weather in Boston?''"

definition boston_answer :: string where
  "boston_answer = ''It is 72F and sunny in Boston.''"

text \<open>
  The scenario of the specification: asked for the weather in Boston, the model requests
  \<^verbatim>\<open>get_weather\<close> with call identifier \<^verbatim>\<open>call_1\<close>, the tool returns two segments,
  and the model then answers in plain text.
\<close>

definition weather_call :: output_item where
  "weather_call = function_call ''call_1'' ''get_weather'' boston_arguments"

definition weather_world :: "(example_env, (string \<times> string) list) world" where
  "weather_world = example_world [[weather_call], [plain_message boston_answer]] []"

definition weather_conversation :: "message list" where
  "weather_conversation =
     [system_message, user_message boston_query, assistant_message weather_call,
      tool_output_message weather_call ''72F, sunny'']"

definition weather_end :: "(example_env, (string \<times> string) list) world" where
  "weather_end =
     \<lparr>env = \<lparr>replies = [], stdin = [], broken_command = ''node''\<rparr>, session = True,
      trace = [ListTools,
               ResponsesCreate ''gpt-4'' (initial_messages boston_query)
                 (build_functions [weather_tool]) ''auto'',
               CallTool ''get_weather'' [(''city'', ''Boston'')],
               ResponsesCreate ''gpt-4'' weather_conversation
                 (build_functions [weather_tool]) ''auto'']\<rparr>"

section \<open>Properties of the pure parts\<close>

lemma result_text_loop_concat:
  "result_text_loop str acc cs = acc @ concat (map (segment_text str) cs)"
  by (induction str acc cs rule: result_text_loop.induct) simp_all

lemma functions_loop_map:
  "functions_loop acc ts = acc @ map tool_function ts"
  by (induction acc ts rule: functions_loop.induct) simp_all

text \<open>
  Claim C2. The text of a tool result is the concatenation, in the order of the segments,
  of the text of each \<^verbatim>\<open>TextContent\<close> segment and of \<^verbatim>\<open>str\<close> of each other segment;
  nothing is put between two segments, and an empty list of segments gives the empty
  string.
\<close>

theorem tool_result_text_is_concatenation:
  "extract_tool_result_text str cs = concat (map (segment_text str) cs)
   \<and> extract_tool_result_text str [] = []
   \<and> extract_tool_result_text str (cs @ ds) =
       extract_tool_result_text str cs @ extract_tool_result_text str ds"
  by (simp add: extract_tool_result_text_def result_text_loop_concat)

section \<open>The loop, pass by pass\<close>

text \<open>
  The partial function \<open>while_true\<close> returns exactly when some number of passes leaves
  the loop, and then it returns the state \<open>run_rounds\<close> computes.
\<close>

lemma while_true_run_rounds:
  "run_rounds n ops fns m f w = (c, m', f', w') \<Longrightarrow> c \<noteq> Continue
   \<Longrightarrow> while_true ops fns m f w = Some (c, m', f', w')"
proof (induction n arbitrary: m f w)
  case 0
  then show ?case by simp
next
  case (Suc n)
  obtain c1 m1 f1 w1 where rb: "round_body ops fns m f w = (c1, m1, f1, w1)"
    by (cases "round_body ops fns m f w") auto
  show ?case
  proof (cases "c1 = Continue")
    case True
    with Suc.prems rb have "run_rounds n ops fns m1 f1 w1 = (c, m', f', w')" by simp
    from Suc.IH[OF this Suc.prems(2)] show ?thesis
      using rb True by (subst while_true.simps) simp
  next
    case False
    with Suc.prems rb show ?thesis by (subst while_true.simps) auto
  qed
qed

lemma run_rounds_while_true:
  assumes "while_true ops fns m f w = Some r"
  shows "\<exists>n. run_rounds n ops fns m f w = r \<and> fst r \<noteq> Continue"
proof (rule while_true.raw_induct[where P = "\<lambda>ops fns m f w r. \<exists>n. run_rounds n ops fns m f w = r \<and> fst r \<noteq> Continue", OF _ assms])
  fix wt :: "('a, 'b, 'c) collaborators \<Rightarrow> 'b function_schema list \<Rightarrow> message list \<Rightarrow> string list
    \<Rightarrow> ('a, 'b) world \<Rightarrow> (control \<times> message list \<times> string list \<times> ('a, 'b) world) option"
  fix ops fns m f w r
  assume IH: "\<And>ops fns m f w y. wt ops fns m f w = Some y
                \<Longrightarrow> \<exists>n. run_rounds n ops fns m f w = y \<and> fst y \<noteq> Continue"
  assume step: "(case round_body ops fns m f w of
                   (c, m', f', w') \<Rightarrow> if c = Continue then wt ops fns m' f' w' else Some (c, m', f', w')) = Some r"
  obtain c1 m1 f1 w1 where rb: "round_body ops fns m f w = (c1, m1, f1, w1)"
    by (cases "round_body ops fns m f w") auto
  show "\<exists>n. run_rounds n ops fns m f w = r \<and> fst r \<noteq> Continue"
  proof (cases "c1 = Continue")
    case True
    with step rb have "wt ops fns m1 f1 w1 = Some r" by simp
    from IH[OF this] obtain n where "run_rounds n ops fns m1 f1 w1 = r" "fst r \<noteq> Continue" by blast
    then have "run_rounds (Suc n) ops fns m f w = r \<and> fst r \<noteq> Continue" using rb True by simp
    then show ?thesis by blast
  next
    case False
    with step rb have "r = (c1, m1, f1, w1)" by simp
    then have "run_rounds (Suc 0) ops fns m f w = r \<and> fst r \<noteq> Continue" using rb False by simp
    then show ?thesis by blast
  qed
qed

lemma run_rounds_extend:
  "run_rounds n ops fns m f w = (Continue, m1, f1, w1)
   \<Longrightarrow> run_rounds (Suc n) ops fns m f w = round_body ops fns m1 f1 w1"
proof (induction n arbitrary: m f w)
  case 0
  then show ?case by (auto split: prod.splits)
next
  case (Suc n)
  obtain c2 m2 f2 w2 where rb: "round_body ops fns m f w = (c2, m2, f2, w2)"
    by (cases "round_body ops fns m f w") auto
  with Suc.prems have c2: "c2 = Continue" and rest: "run_rounds n ops fns m2 f2 w2 = (Continue, m1, f1, w1)"
    by (auto split: if_splits)
  from Suc.IH[OF rest] show ?case
    using rb c2 by (simp del: run_rounds.simps(2) add: run_rounds.simps(2)[of "Suc n"])
qed

lemma round_body_final_text:
  "round_body ops fns m f w = (Continue, m', f', w') \<Longrightarrow> f' = f"
  by (auto simp: round_body_def Let_def split: prod.splits sum.splits list.splits if_splits)

lemma run_rounds_final_text:
  "run_rounds n ops fns m f w = (Continue, m', f', w') \<Longrightarrow> f' = f"
proof (induction n arbitrary: m f w)
  case 0
  then show ?case by simp
next
  case (Suc n)
  obtain c2 m2 f2 w2 where rb: "round_body ops fns m f w = (c2, m2, f2, w2)"
    by (cases "round_body ops fns m f w") auto
  with Suc.prems have c2: "c2 = Continue" and rest: "run_rounds n ops fns m2 f2 w2 = (Continue, m', f', w')"
    by (auto split: if_splits)
  from Suc.IH[OF rest] round_body_final_text[of ops fns m f w m2 f2 w2] rb c2 show ?case by simp
qed

lemma process_query_run_leaves:
  assumes "do_list_tools ops w = (Inr tools, w1)"
    and "run_rounds n ops (build_functions tools) (initial_messages query) [] w1
           = (Continue, messages, final_text, w2)"
    and "round_body ops (build_functions tools) messages [] w2 = (c, messages', final_text', w3)"
    and "c \<noteq> Continue"
  shows "process_query_run ops query w =
           Some (case c of Raise err \<Rightarrow> Inl err | _ \<Rightarrow> Inr (join [CHR 0x0A] final_text'),
                 messages', w3)"
proof -
  have ft: "final_text = []" using run_rounds_final_text[OF assms(2)] .
  have "run_rounds (Suc n) ops (build_functions tools) (initial_messages query) [] w1
          = (c, messages', final_text', w3)"
    using run_rounds_extend[OF assms(2)] assms(3) ft by simp
  from while_true_run_rounds[OF this assms(4)] show ?thesis
    using assms(1) by (simp add: process_query_run_def split: control.splits)
qed

lemma round_body_messages_cases:
  assumes "round_body ops fns m f w = (c, m', f', w')"
  obtains (same) "m' = m" "c \<noteq> Continue"
  | (assistant) out where "m' = m @ [assistant_message out]" "c \<noteq> Continue"
  | (tool) out res where
      "m' = m @ [assistant_message out, tool_output_message out res]" "c = Continue"
  using assms
  by (auto simp: round_body_def Let_def split: prod.splits sum.splits list.splits if_splits)

lemma run_rounds_frozen:
  "run_rounds n ops fns m f w = (c, m', f', w') \<Longrightarrow> c \<noteq> Continue
   \<Longrightarrow> run_rounds (Suc n) ops fns m f w = (c, m', f', w')"
proof (induction n arbitrary: m f w)
  case 0
  then show ?case by simp
next
  case (Suc n)
  obtain c2 m2 f2 w2 where rb: "round_body ops fns m f w = (c2, m2, f2, w2)"
    by (cases "round_body ops fns m f w") auto
  show ?case
  proof (cases "c2 = Continue")
    case True
    with Suc.prems rb have "run_rounds n ops fns m2 f2 w2 = (c, m', f', w')" by simp
    from Suc.IH[OF this Suc.prems(2)] show ?thesis
      using rb True by (simp del: run_rounds.simps(2) add: run_rounds.simps(2)[of "Suc n"])
  next
    case False
    with Suc.prems rb show ?thesis
      by (simp del: run_rounds.simps(2) add: run_rounds.simps(2)[of "Suc n"] run_rounds.simps(2)[of n])
  qed
qed

lemma run_rounds_Suc_cases:
  obtains (frozen) "run_rounds (Suc n) ops fns m f w = run_rounds n ops fns m f w"
  | (step) m1 f1 w1 where "run_rounds n ops fns m f w = (Continue, m1, f1, w1)"
      "run_rounds (Suc n) ops fns m f w = round_body ops fns m1 f1 w1"
proof -
  obtain c m1 f1 w1 where st: "run_rounds n ops fns m f w = (c, m1, f1, w1)"
    by (cases "run_rounds n ops fns m f w") auto
  show thesis
  proof (cases "c = Continue")
    case True
    with st run_rounds_extend[of n ops fns m f w m1 f1 w1] step show ?thesis by simp
  next
    case False
    with st run_rounds_frozen[of n ops fns m f w c m1 f1 w1] frozen show ?thesis by simp
  qed
qed

lemma messages_of_simp [simp]: "messages_of (c, m, f, w) = m"
  by (simp add: messages_of_def)

lemma world_of_simp [simp]: "world_of (c, m, f, w) = w"
  by (simp add: world_of_def)

lemma run_rounds_Suc_prefix:
  "prefix (messages_of (run_rounds n ops fns m f w)) (messages_of (run_rounds (Suc n) ops fns m f w))"
proof (cases rule: run_rounds_Suc_cases[of n ops fns m f w])
  case frozen
  then show ?thesis by simp
next
  case (step m1 f1 w1)
  obtain c m' f' w' where rb: "round_body ops fns m1 f1 w1 = (c, m', f', w')"
    by (cases "round_body ops fns m1 f1 w1") auto
  from rb have "prefix m1 m'"
    by (cases rule: round_body_messages_cases) auto
  with step rb show ?thesis by simp
qed

lemma run_rounds_append_only:
  "n \<le> k \<Longrightarrow> prefix (messages_of (run_rounds n ops fns m f w)) (messages_of (run_rounds k ops fns m f w))"
proof (induction k)
  case 0
  then show ?case by simp
next
  case (Suc k)
  show ?case
  proof (cases "n = Suc k")
    case True
    then show ?thesis by simp
  next
    case False
    with Suc.prems have "n \<le> k" by simp
    from Suc.IH[OF this] run_rounds_Suc_prefix[of k ops fns m f w] show ?thesis
      by (rule prefix_order.trans)
  qed
qed

lemma process_query_run_cases:
  assumes "process_query_run ops query w = Some (r, ms, w')"
  obtains (no_tools) err where "do_list_tools ops w = (Inl err, w')"
      "ms = initial_messages query" "r = Inl err"
  | (rounds) tools w1 n c f where "do_list_tools ops w = (Inr tools, w1)"
      "run_rounds n ops (build_functions tools) (initial_messages query) [] w1 = (c, ms, f, w')"
      "c \<noteq> Continue" "r = (case c of Raise err \<Rightarrow> Inl err | _ \<Rightarrow> Inr (join [CHR 0x0A] f))"
proof -
  obtain lt w1 where lt: "do_list_tools ops w = (lt, w1)"
    by (cases "do_list_tools ops w") auto
  show thesis
  proof (cases lt)
    case (Inl err)
    with assms lt no_tools show ?thesis by (simp add: process_query_run_def)
  next
    case (Inr tools)
    with assms lt obtain c f where
      wt: "while_true ops (build_functions tools) (initial_messages query) [] w1 = Some (c, ms, f, w')"
      and r: "r = (case c of Raise err \<Rightarrow> Inl err | _ \<Rightarrow> Inr (join [CHR 0x0A] f))"
      by (auto simp: process_query_run_def split: option.splits control.splits)
    from run_rounds_while_true[OF wt] obtain n where
      "run_rounds n ops (build_functions tools) (initial_messages query) [] w1 = (c, ms, f, w')"
      "c \<noteq> Continue" by auto
    with lt Inr r rounds show ?thesis by simp
  qed
qed

section \<open>The three ways a pass leaves the loop\<close>

text \<open>The definitions a run on the scripted collaborators unfolds.\<close>

lemmas ex_defs = example_ops_def example_world_def round_body_def do_responses_create_def emit_def
  function_call_def plain_message_def boston_arguments_def do_call_tool_def do_list_tools_def
  reasoning_item_def

text \<open>
  Claim C1. Whatever the query, and however many tool rounds came before: when the model's
  output item is of type \<^verbatim>\<open>message\<close> (and has a first content part, whose text is
  \<open>text\<close>), \<^verbatim>\<open>process_query\<close> returns, the answer is exactly \<open>text\<close>, the conversation
  is the one the model was called with (nothing was appended), and the model call is the
  last call made. The \<open>n\<close> passes before it all continued, so none of them saw a plain
  message: this is the first.
\<close>

theorem first_plain_message_is_the_answer:
  assumes "do_list_tools ops w = (Inr tools, w1)"
    and "run_rounds n ops (build_functions tools) (initial_messages query) [] w1
           = (Continue, messages, final_text, w2)"
    and "do_responses_create ops ''gpt-4'' messages (build_functions tools) ''auto'' w2
           = (Inr (output # rest), w3)"
    and "out_type output = ''message''"
    and "out_content output = text # parts"
  shows "process_query_run ops query w = Some (Inr text, messages, w3)
         \<and> process_query ops query w = Some (Inr text, w3)
         \<and> trace w3 = trace w2 @ [ResponsesCreate ''gpt-4'' messages (build_functions tools) ''auto'']"
proof -
  have rb: "round_body ops (build_functions tools) messages [] w2 = (Break, messages, [text], w3)"
    using assms(3,4,5) by (simp add: round_body_def)
  have run: "process_query_run ops query w = Some (Inr text, messages, w3)"
    using process_query_run_leaves[OF assms(1,2) rb] by simp
  have tr: "trace w3 = trace w2 @ [ResponsesCreate ''gpt-4'' messages (build_functions tools) ''auto'']"
    using assms(3) by (auto simp: do_responses_create_def emit_def split: prod.splits)
  show ?thesis using run tr by (simp add: process_query_def)
qed

text \<open>The scripted model asks for the weather tool, then answers in plain text.\<close>

theorem first_plain_message_is_the_answer_witness:
  "map_option fst
     (process_query example_ops boston_query
        (example_world [[function_call ''call_1'' ''get_weather'' boston_arguments],
                        [plain_message boston_answer]] []))
   = Some (Inr boston_answer)"
proof -
  let ?W = "example_world [[function_call ''call_1'' ''get_weather'' boston_arguments],
                        [plain_message boston_answer]] []"
  let ?fns = "build_functions [weather_tool]"
  let ?w1 = "snd (do_list_tools example_ops ?W)"
  let ?st = "run_rounds (Suc 0) example_ops ?fns (initial_messages boston_query) [] ?w1"
  let ?r = "do_responses_create example_ops ''gpt-4'' (messages_of ?st) ?fns ''auto'' (world_of ?st)"
  have h1: "do_list_tools example_ops ?W = (Inr [weather_tool], ?w1)"
    by (simp add: ex_defs)
  have h2: "?st = (Continue, messages_of ?st, [], world_of ?st)"
    by (simp add: ex_defs)
  have h3: "?r = (Inr (plain_message boston_answer # []), snd ?r)"
    by (simp add: ex_defs)
  have h4: "out_type (plain_message boston_answer) = ''message''"
    by (simp add: plain_message_def)
  have h5: "out_content (plain_message boston_answer) = boston_answer # []"
    by (simp add: plain_message_def)
  from first_plain_message_is_the_answer[OF h1 h2 h3 h4 h5] show ?thesis by simp
qed

text \<open>
  Claim C4. When the type of the model's output item is neither \<^verbatim>\<open>message\<close> nor
  \<^verbatim>\<open>function_call\<close>, \<^verbatim>\<open>process_query\<close> raises \<^verbatim>\<open>RuntimeError\<close> naming the type;
  the conversation is the one the model was called with (no message was appended in that
  round), and the model call is the last call made (the loop does not go on).
\<close>

theorem unexpected_output_type_raises:
  assumes "do_list_tools ops w = (Inr tools, w1)"
    and "run_rounds n ops (build_functions tools) (initial_messages query) [] w1
           = (Continue, messages, final_text, w2)"
    and "do_responses_create ops ''gpt-4'' messages (build_functions tools) ''auto'' w2
           = (Inr (output # rest), w3)"
    and "out_type output \<noteq> ''message''"
    and "out_type output \<noteq> ''function_call''"
  shows "process_query_run ops query w =
           Some (Inl (RuntimeError (''Unexpected output type: '' @ out_type output)), messages, w3)
         \<and> process_query ops query w =
           Some (Inl (RuntimeError (''Unexpected output type: '' @ out_type output)), w3)
         \<and> trace w3 = trace w2 @ [ResponsesCreate ''gpt-4'' messages (build_functions tools) ''auto'']"
proof -
  have rb: "round_body ops (build_functions tools) messages [] w2 =
              (Raise (RuntimeError (''Unexpected output type: '' @ out_type output)), messages, [], w3)"
    using assms(3,4,5) by (simp add: round_body_def)
  have run: "process_query_run ops query w =
           Some (Inl (RuntimeError (''Unexpected output type: '' @ out_type output)), messages, w3)"
    using process_query_run_leaves[OF assms(1,2) rb] by simp
  have tr: "trace w3 = trace w2 @ [ResponsesCreate ''gpt-4'' messages (build_functions tools) ''auto'']"
    using assms(3) by (auto simp: do_responses_create_def emit_def split: prod.splits)
  show ?thesis using run tr by (simp add: process_query_def)
qed

text \<open>After one tool round the scripted model answers with an item of type \<^verbatim>\<open>reasoning\<close>.\<close>

theorem unexpected_output_type_raises_witness:
  "map_option fst
     (process_query example_ops boston_query
        (example_world [[function_call ''call_1'' ''get_weather'' boston_arguments],
                        [reasoning_item, plain_message boston_answer]] []))
   = Some (Inl (RuntimeError ''Unexpected output type: reasoning''))"
proof -
  let ?W = "example_world [[function_call ''call_1'' ''get_weather'' boston_arguments],
                        [reasoning_item, plain_message boston_answer]] []"
  let ?fns = "build_functions [weather_tool]"
  let ?w1 = "snd (do_list_tools example_ops ?W)"
  let ?st = "run_rounds (Suc 0) example_ops ?fns (initial_messages boston_query) [] ?w1"
  let ?r = "do_responses_create example_ops ''gpt-4'' (messages_of ?st) ?fns ''auto'' (world_of ?st)"
  have h1: "do_list_tools example_ops ?W = (Inr [weather_tool], ?w1)"
    by (simp add: ex_defs)
  have h2: "?st = (Continue, messages_of ?st, [], world_of ?st)"
    by (simp add: ex_defs)
  have h3: "?r = (Inr (reasoning_item # [plain_message boston_answer]), snd ?r)"
    by (simp add: ex_defs)
  have h4: "out_type reasoning_item \<noteq> ''message''"
    by (simp add: reasoning_item_def)
  have h5: "out_type reasoning_item \<noteq> ''function_call''"
    by (simp add: reasoning_item_def)
  from unexpected_output_type_raises[OF h1 h2 h3 h4 h5] show ?thesis
    by (simp add: reasoning_item_def)
qed



section \<open>The scenario, run\<close>

lemma weather_round:
  "run_rounds (Suc 0) example_ops (build_functions [weather_tool]) (initial_messages boston_query) []
     (snd (do_list_tools example_ops weather_world))
   = (Continue, weather_conversation, [],
      \<lparr>env = \<lparr>replies = [[plain_message boston_answer]], stdin = [], broken_command = ''node''\<rparr>,
       session = True,
       trace = [ListTools,
               ResponsesCreate ''gpt-4'' (initial_messages boston_query)
                 (build_functions [weather_tool]) ''auto'',
               CallTool ''get_weather'' [(''city'', ''Boston'')]]\<rparr>)"
  by (simp add: ex_defs weather_world_def weather_call_def weather_conversation_def
      initial_messages_def extract_tool_result_text_def)

lemma weather_scenario:
  "process_query_run example_ops boston_query weather_world
     = Some (Inr boston_answer, weather_conversation, weather_end)"
proof -
  have h1: "do_list_tools example_ops weather_world
              = (Inr [weather_tool], snd (do_list_tools example_ops weather_world))"
    by (simp add: ex_defs weather_world_def)
  have h3: "round_body example_ops (build_functions [weather_tool]) weather_conversation []
       \<lparr>env = \<lparr>replies = [[plain_message boston_answer]], stdin = [], broken_command = ''node''\<rparr>,
       session = True,
       trace = [ListTools,
               ResponsesCreate ''gpt-4'' (initial_messages boston_query)
                 (build_functions [weather_tool]) ''auto'',
               CallTool ''get_weather'' [(''city'', ''Boston'')]]\<rparr>
       = (Break, weather_conversation, [boston_answer], weather_end)"
    by (simp add: ex_defs weather_end_def)
  from process_query_run_leaves[OF h1 weather_round h3] show ?thesis by simp
qed

section \<open>Invariants of the conversation\<close>

subsection \<open>Back-references of tool messages\<close>

lemma answers_earlier_call_append:
  "i < length ms \<Longrightarrow> answers_earlier_call (ms @ xs) i = answers_earlier_call ms i"
  by (simp add: answers_earlier_call_def nth_append)

lemma tool_references_ok_append_other:
  assumes "tool_references_ok ms" and "role a \<noteq> ''tool''"
  shows "tool_references_ok (ms @ [a])"
  unfolding tool_references_ok_def
proof (intro ballI impI)
  fix i assume i: "i \<in> set [0..<length (ms @ [a])]" and t: "role ((ms @ [a]) ! i) = ''tool''"
  from t assms(2) have "i \<noteq> length ms" by (auto simp: nth_append)
  with i have lt: "i < length ms" by simp
  with t have "role (ms ! i) = ''tool''" by (simp add: nth_append)
  with assms(1) lt have "answers_earlier_call ms i" by (simp add: tool_references_ok_def)
  with lt show "answers_earlier_call (ms @ [a]) i" by (simp add: answers_earlier_call_append)
qed

lemma tool_references_ok_append_answer:
  assumes "tool_references_ok xs" and "answers_earlier_call (xs @ [t]) (length xs)"
  shows "tool_references_ok (xs @ [t])"
  unfolding tool_references_ok_def
proof (intro ballI impI)
  fix i assume i: "i \<in> set [0..<length (xs @ [t])]" and r: "role ((xs @ [t]) ! i) = ''tool''"
  show "answers_earlier_call (xs @ [t]) i"
  proof (cases "i < length xs")
    case True
    with r have "role (xs ! i) = ''tool''" by (simp add: nth_append)
    with assms(1) True have "answers_earlier_call xs i" by (simp add: tool_references_ok_def)
    with True show ?thesis by (simp only: answers_earlier_call_append)
  next
    case False
    with i have "i = length xs" by simp
    with assms(2) show ?thesis by simp
  qed
qed

lemma tool_references_ok_append_tool:
  assumes "tool_references_ok (ms @ [assistant_message out])"
  shows "tool_references_ok ((ms @ [assistant_message out]) @ [tool_output_message out res])"
proof (rule tool_references_ok_append_answer[OF assms])
  show "answers_earlier_call ((ms @ [assistant_message out]) @ [tool_output_message out res])
          (length (ms @ [assistant_message out]))"
    by (simp add: answers_earlier_call_def nth_append assistant_message_def
        tool_output_message_def calls_of_def)
qed

lemma tool_references_ok_initial: "tool_references_ok (initial_messages query)"
  by (simp add: tool_references_ok_def initial_messages_def system_message_def user_message_def
      nth_Cons split: nat.splits)

lemma round_body_tool_references_ok:
  assumes "round_body ops fns m f w = (c, m', f', w')" and "tool_references_ok m"
  shows "tool_references_ok m'"
  using assms(1)
proof (cases rule: round_body_messages_cases)
  case same
  with assms(2) show ?thesis by simp
next
  case (assistant out)
  with assms(2) show ?thesis
    by (simp add: tool_references_ok_append_other assistant_message_def)
next
  case (tool out res)
  have "tool_references_ok (m @ [assistant_message out])"
    using assms(2) by (simp add: tool_references_ok_append_other assistant_message_def)
  from tool_references_ok_append_tool[OF this, of res] tool show ?thesis by simp
qed

lemma run_rounds_tool_references_ok:
  "tool_references_ok m \<Longrightarrow> tool_references_ok (messages_of (run_rounds n ops fns m f w))"
proof (induction n)
  case 0
  then show ?case by simp
next
  case (Suc n)
  show ?case
  proof (cases rule: run_rounds_Suc_cases[of n ops fns m f w])
    case frozen
    with Suc show ?thesis by simp
  next
    case (step m1 f1 w1)
    obtain c m' f' w' where rb: "round_body ops fns m1 f1 w1 = (c, m', f', w')"
      by (cases "round_body ops fns m1 f1 w1") auto
    from Suc step(1) have "tool_references_ok m1" by simp
    from round_body_tool_references_ok[OF rb this] step(2) rb show ?thesis by simp
  qed
qed

text \<open>
  Claim C5. In the conversation of \<^verbatim>\<open>process_query\<close>, after any number of passes of the
  loop and when the method returns or raises, every message of role \<^verbatim>\<open>tool\<close> carries
  the call identifier of a tool invocation that an assistant message at an earlier
  position of the same conversation records.
\<close>

theorem tool_messages_answer_earlier_calls:
  "tool_references_ok (messages_of (run_rounds n ops fns (initial_messages query) [] w1))
   \<and> (process_query_run ops query w = Some (r, ms, w') \<longrightarrow> tool_references_ok ms)"
proof (intro conjI impI)
  show "tool_references_ok (messages_of (run_rounds n ops fns (initial_messages query) [] w1))"
    by (rule run_rounds_tool_references_ok[OF tool_references_ok_initial])
next
  assume "process_query_run ops query w = Some (r, ms, w')"
  then show "tool_references_ok ms"
  proof (cases rule: process_query_run_cases)
    case (no_tools err)
    then show ?thesis by (simp add: tool_references_ok_initial)
  next
    case (rounds tools w1 n c f)
    from run_rounds_tool_references_ok[OF tool_references_ok_initial, of n ops "build_functions tools" query "[]" w1]
      rounds(2) show ?thesis by simp
  qed
qed

text \<open>In the scenario the tool message at position 3 answers the call of position 2.\<close>

theorem tool_messages_answer_earlier_calls_witness:
  "process_query_run example_ops boston_query weather_world
     = Some (Inr boston_answer, weather_conversation, weather_end)
   \<and> tool_references_ok weather_conversation
   \<and> role (weather_conversation ! 3) = ''tool''
   \<and> answers_earlier_call weather_conversation 3"
proof -
  have tool: "role (weather_conversation ! 3) = ''tool''"
    by (simp add: weather_conversation_def tool_output_message_def)
  have ok: "tool_references_ok weather_conversation"
    using tool_messages_answer_earlier_calls[where ops = example_ops and query = boston_query
        and w = weather_world and r = "Inr boston_answer" and ms = weather_conversation
        and w' = weather_end] weather_scenario
    by simp
  then have "answers_earlier_call weather_conversation 3"
    using tool by (simp add: tool_references_ok_def weather_conversation_def numeral_3_eq_3)
  with weather_scenario tool ok show ?thesis by simp
qed

subsection \<open>Append-only, with the system message first and once\<close>

lemma model_inputs_append: "model_inputs (xs @ ys) = model_inputs xs @ model_inputs ys"
  by (induction xs rule: model_inputs.induct) simp_all

lemma round_body_trace:
  assumes "round_body ops fns m f w = (c, m', f', w')"
  shows "\<exists>evs. trace w' = trace w @ evs \<and> model_inputs evs = [(m, fns)]"
  using assms
  by (auto simp: round_body_def Let_def do_responses_create_def do_call_tool_def emit_def
      split: prod.splits sum.splits list.splits if_splits)

lemma round_body_session:
  assumes "round_body ops fns m f w = (c, m', f', w')"
  shows "session w' = session w"
  using assms
  by (auto simp: round_body_def Let_def do_responses_create_def do_call_tool_def emit_def
      split: prod.splits sum.splits list.splits if_splits)

lemma run_rounds_prefix_start: "prefix m (messages_of (run_rounds n ops fns m f w))"
  using run_rounds_append_only[of 0 n ops fns m f w] by simp

lemma run_rounds_trace:
  "\<exists>evs. trace (world_of (run_rounds n ops fns m f w)) = trace w @ evs
         \<and> (\<forall>(msgs, fs) \<in> set (model_inputs evs). prefix m msgs \<and> fs = fns)"
proof (induction n)
  case 0
  then show ?case by simp
next
  case (Suc n)
  show ?case
  proof (cases rule: run_rounds_Suc_cases[of n ops fns m f w])
    case frozen
    with Suc show ?thesis by simp
  next
    case (step m1 f1 w1)
    obtain c m' f' w' where rb: "round_body ops fns m1 f1 w1 = (c, m', f', w')"
      by (cases "round_body ops fns m1 f1 w1") auto
    from Suc step(1) obtain evs where evs: "trace w1 = trace w @ evs"
      "\<forall>(msgs, fs) \<in> set (model_inputs evs). prefix m msgs \<and> fs = fns" by auto
    from round_body_trace[OF rb] obtain evs' where evs': "trace w' = trace w1 @ evs'"
      "model_inputs evs' = [(m1, fns)]" by blast
    have pm: "prefix m m1" using run_rounds_prefix_start[of m n ops fns f w] step(1) by simp
    have "trace w' = trace w @ (evs @ evs')" using evs(1) evs'(1) by simp
    moreover have "\<forall>(msgs, fs) \<in> set (model_inputs (evs @ evs')). prefix m msgs \<and> fs = fns"
      using evs(2) evs'(2) pm by (auto simp: model_inputs_append)
    ultimately show ?thesis using step(2) rb by auto
  qed
qed

lemma run_rounds_new_events:
  "\<forall>(msgs, fs) \<in> set (model_inputs (new_events w (world_of (run_rounds n ops fns m f w)))).
      prefix m msgs \<and> fs = fns"
  using run_rounds_trace[of n ops fns m f w] by (auto simp: new_events_def)

lemma round_body_system_messages:
  assumes "round_body ops fns m f w = (c, m', f', w')"
  shows "filter is_system m' = filter is_system m"
  using assms
  by (cases rule: round_body_messages_cases)
     (simp_all add: is_system_def assistant_message_def tool_output_message_def)

lemma run_rounds_system_messages:
  "filter is_system (messages_of (run_rounds n ops fns m f w)) = filter is_system m"
proof (induction n)
  case 0
  then show ?case by simp
next
  case (Suc n)
  show ?case
  proof (cases rule: run_rounds_Suc_cases[of n ops fns m f w])
    case frozen
    with Suc show ?thesis by simp
  next
    case (step m1 f1 w1)
    obtain c m' f' w' where rb: "round_body ops fns m1 f1 w1 = (c, m', f', w')"
      by (cases "round_body ops fns m1 f1 w1") auto
    from round_body_system_messages[OF rb] Suc step rb show ?thesis by simp
  qed
qed

lemma initial_system_messages: "filter is_system (initial_messages query) = [system_message]"
  by (simp add: is_system_def initial_messages_def system_message_def user_message_def)

text \<open>
  Claim C6. The conversation of \<^verbatim>\<open>process_query\<close> starts as the system message followed
  by the user's query; the conversation after \<open>n\<close> passes is a prefix of the conversation
  after any \<open>k \<ge> n\<close> passes, so a message once appended is never changed or removed;
  the system message stays the first element and the only message of role \<^verbatim>\<open>system\<close>;
  every call of the model receives a conversation that begins with it; and the same holds
  of the conversation when the method returns or raises.
\<close>

theorem conversation_is_append_only:
  "messages_of (run_rounds 0 ops fns (initial_messages query) [] w1)
     = [system_message, user_message query]
   \<and> (n \<le> k \<longrightarrow>
        prefix (messages_of (run_rounds n ops fns (initial_messages query) [] w1))
               (messages_of (run_rounds k ops fns (initial_messages query) [] w1)))
   \<and> prefix [system_message, user_message query]
        (messages_of (run_rounds n ops fns (initial_messages query) [] w1))
   \<and> filter is_system (messages_of (run_rounds n ops fns (initial_messages query) [] w1))
        = [system_message]
   \<and> (\<forall>(msgs, fs) \<in> set (model_inputs (new_events w1
          (world_of (run_rounds n ops fns (initial_messages query) [] w1)))).
          prefix [system_message, user_message query] msgs)
   \<and> (process_query_run ops query w = Some (r, ms, w') \<longrightarrow>
        prefix [system_message, user_message query] ms
        \<and> filter is_system ms = [system_message])"
proof (intro conjI impI)
  show "messages_of (run_rounds 0 ops fns (initial_messages query) [] w1)
          = [system_message, user_message query]"
    by (simp add: initial_messages_def)
next
  assume "n \<le> k"
  then show "prefix (messages_of (run_rounds n ops fns (initial_messages query) [] w1))
               (messages_of (run_rounds k ops fns (initial_messages query) [] w1))"
    by (rule run_rounds_append_only)
next
  show "prefix [system_message, user_message query]
        (messages_of (run_rounds n ops fns (initial_messages query) [] w1))"
    using run_rounds_prefix_start[of "initial_messages query" n ops fns "[]" w1]
    by (simp add: initial_messages_def)
next
  show "filter is_system (messages_of (run_rounds n ops fns (initial_messages query) [] w1))
        = [system_message]"
    by (simp add: run_rounds_system_messages initial_system_messages)
next
  show "\<forall>(msgs, fs) \<in> set (model_inputs (new_events w1
          (world_of (run_rounds n ops fns (initial_messages query) [] w1)))).
          prefix [system_message, user_message query] msgs"
    using run_rounds_new_events[of w1 n ops fns "initial_messages query" "[]"]
    by (auto simp: initial_messages_def)
next
  assume run: "process_query_run ops query w = Some (r, ms, w')"
  then show "prefix [system_message, user_message query] ms"
  proof (cases rule: process_query_run_cases)
    case (no_tools err)
    then show ?thesis by (simp add: initial_messages_def)
  next
    case (rounds tools w1 n c f)
    from run_rounds_prefix_start[of "initial_messages query" n ops "build_functions tools" "[]" w1]
      rounds(2) show ?thesis by (simp add: initial_messages_def)
  qed
  from run show "filter is_system ms = [system_message]"
  proof (cases rule: process_query_run_cases)
    case (no_tools err)
    then show ?thesis by (simp add: initial_system_messages)
  next
    case (rounds tools w1 n c f)
    from run_rounds_system_messages[of n ops "build_functions tools" "initial_messages query" "[]" w1]
      rounds(2) show ?thesis by (simp add: initial_system_messages)
  qed
qed

text \<open>The scenario after one and after two passes, and at its end.\<close>

theorem conversation_is_append_only_witness:
  "Suc 0 \<le> Suc (Suc 0)
   \<and> prefix [system_message, user_message boston_query, assistant_message weather_call,
              tool_output_message weather_call ''72F, sunny'']
        (messages_of (run_rounds (Suc (Suc 0)) example_ops (build_functions [weather_tool])
           (initial_messages boston_query) [] (snd (do_list_tools example_ops weather_world))))
   \<and> process_query_run example_ops boston_query weather_world
        = Some (Inr boston_answer, weather_conversation, weather_end)
   \<and> prefix [system_message, user_message boston_query] weather_conversation
   \<and> filter is_system weather_conversation = [system_message]"
  using conversation_is_append_only[where ops = example_ops and query = boston_query
        and w = weather_world and r = "Inr boston_answer" and ms = weather_conversation
        and w' = weather_end and n = "Suc 0" and k = "Suc (Suc 0)"
        and fns = "build_functions [weather_tool]"
        and ?w1.0 = "snd (do_list_tools example_ops weather_world)"]
    weather_scenario weather_round
  by (simp add: weather_conversation_def del: run_rounds.simps)

section \<open>Connecting to the server\<close>











section \<open>The interactive loop\<close>

subsection \<open>The token \<^verbatim>\<open>quit\<close>\<close>

text \<open>
  \<^verbatim>\<open>query.lower() == "quit"\<close> holds of the sixteen spellings of \<^verbatim>\<open>quit\<close> in upper and
  lower case, and of nothing else.
\<close>

lemma lower_char_eq_lower:
  assumes "97 \<le> (of_char l :: nat)" and "(of_char l :: nat) \<le> 122"
  shows "lower_char c = l \<longleftrightarrow> c = l \<or> c = char_of ((of_char l :: nat) - 32)"
proof
  assume eq: "lower_char c = l"
  show "c = l \<or> c = char_of ((of_char l :: nat) - 32)"
  proof (cases "65 \<le> (of_char c :: nat) \<and> (of_char c :: nat) \<le> 90")
    case True
    with eq have "char_of ((of_char c :: nat) + 32) = l" by (simp add: lower_char_def)
    then have "(of_char (char_of ((of_char c :: nat) + 32)) :: nat) = of_char l" by simp
    with True have "(of_char c :: nat) + 32 = of_char l" by simp
    then have "(of_char c :: nat) = of_char l - 32" by simp
    then have "char_of (of_char c :: nat) = char_of ((of_char l :: nat) - 32)" by simp
    then show ?thesis by simp
  next
    case False
    with eq show ?thesis by (auto simp: lower_char_def)
  qed
next
  assume "c = l \<or> c = char_of ((of_char l :: nat) - 32)"
  then show "lower_char c = l"
  proof
    assume "c = l"
    with assms show ?thesis by (simp add: lower_char_def)
  next
    assume c: "c = char_of ((of_char l :: nat) - 32)"
    then have n: "(of_char c :: nat) = of_char l - 32" using assms by simp
    from assms have lo: "65 \<le> (of_char l :: nat) - 32" and hi: "(of_char l :: nat) - 32 \<le> 90"
      and again: "(of_char l :: nat) - 32 + 32 = of_char l"
      by arith+
    show ?thesis using n lo hi again by (simp add: lower_char_def Let_def)
  qed
qed

lemma lower_eq_quit_iff:
  "lower s = ''quit'' \<longleftrightarrow>
     (\<exists>a b c d. s = [a, b, c, d] \<and> a \<in> {CHR ''q'', CHR ''Q''} \<and> b \<in> {CHR ''u'', CHR ''U''}
        \<and> c \<in> {CHR ''i'', CHR ''I''} \<and> d \<in> {CHR ''t'', CHR ''T''})"
proof -
  have UPQ: "char_of (81::nat) = CHR ''Q''" by (simp add: char_of_eq_iff)
  have UPU: "char_of (85::nat) = CHR ''U''" by (simp add: char_of_eq_iff)
  have UPI: "char_of (73::nat) = CHR ''I''" by (simp add: char_of_eq_iff)
  have UPT: "char_of (84::nat) = CHR ''T''" by (simp add: char_of_eq_iff)
  have q: "lower_char x = CHR ''q'' \<longleftrightarrow> x = CHR ''q'' \<or> x = CHR ''Q''" for x
    using lower_char_eq_lower[of "CHR ''q''" x] UPQ by simp
  have u: "lower_char x = CHR ''u'' \<longleftrightarrow> x = CHR ''u'' \<or> x = CHR ''U''" for x
    using lower_char_eq_lower[of "CHR ''u''" x] UPU by simp
  have i: "lower_char x = CHR ''i'' \<longleftrightarrow> x = CHR ''i'' \<or> x = CHR ''I''" for x
    using lower_char_eq_lower[of "CHR ''i''" x] UPI by simp
  have t: "lower_char x = CHR ''t'' \<longleftrightarrow> x = CHR ''t'' \<or> x = CHR ''T''" for x
    using lower_char_eq_lower[of "CHR ''t''" x] UPT by simp
  show ?thesis
  proof
    assume "lower s = ''quit''"
    then obtain a b c d where s: "s = [a, b, c, d]" and l: "lower_char a = CHR ''q''"
      "lower_char b = CHR ''u''" "lower_char c = CHR ''i''" "lower_char d = CHR ''t''"
      unfolding lower_def map_eq_Cons_conv by blast
    from l have "a \<in> {CHR ''q'', CHR ''Q''}" "b \<in> {CHR ''u'', CHR ''U''}"
      "c \<in> {CHR ''i'', CHR ''I''}" "d \<in> {CHR ''t'', CHR ''T''}"
      by (simp_all only: q u i t insert_iff empty_iff simp_thms)
    with s show "\<exists>a b c d. s = [a, b, c, d] \<and> a \<in> {CHR ''q'', CHR ''Q''}
        \<and> b \<in> {CHR ''u'', CHR ''U''} \<and> c \<in> {CHR ''i'', CHR ''I''} \<and> d \<in> {CHR ''t'', CHR ''T''}"
      by blast
  next
    assume "\<exists>a b c d. s = [a, b, c, d] \<and> a \<in> {CHR ''q'', CHR ''Q''}
        \<and> b \<in> {CHR ''u'', CHR ''U''} \<and> c \<in> {CHR ''i'', CHR ''I''} \<and> d \<in> {CHR ''t'', CHR ''T''}"
    then obtain a b c d where s: "s = [a, b, c, d]" and m: "a \<in> {CHR ''q'', CHR ''Q''}"
      "b \<in> {CHR ''u'', CHR ''U''}" "c \<in> {CHR ''i'', CHR ''I''}" "d \<in> {CHR ''t'', CHR ''T''}"
      by blast
    from m have "lower_char a = CHR ''q''" "lower_char b = CHR ''u''" "lower_char c = CHR ''i''"
      "lower_char d = CHR ''t''"
      by (simp_all only: q u i t insert_iff empty_iff simp_thms)
    with s show "lower s = ''quit''" by (simp add: lower_def)
  qed
qed

subsection \<open>Queries run on the scripted collaborators\<close>

lemma do_list_tools_trace:
  assumes "do_list_tools ops w = (r, w1)"
  shows "\<exists>evs. trace w1 = trace w @ evs \<and> model_inputs evs = [] \<and> session w1 = session w"
  using assms by (auto simp: do_list_tools_def emit_def split: if_splits prod.splits)

lemma run_rounds_session:
  "session (world_of (run_rounds n ops fns m f w)) = session w"
proof (induction n)
  case 0
  then show ?case by simp
next
  case (Suc n)
  show ?case
  proof (cases rule: run_rounds_Suc_cases[of n ops fns m f w])
    case frozen
    with Suc show ?thesis by simp
  next
    case (step m1 f1 w1)
    obtain c m' f' w' where rb: "round_body ops fns m1 f1 w1 = (c, m', f', w')"
      by (cases "round_body ops fns m1 f1 w1") auto
    from round_body_session[OF rb] Suc step rb show ?thesis by simp
  qed
qed

lemma process_query_session:
  assumes "process_query ops query w = Some (r, w')"
  shows "session w' = session w"
proof -
  from assms obtain ms where "process_query_run ops query w = Some (r, ms, w')"
    by (auto simp: process_query_def)
  then show ?thesis
  proof (cases rule: process_query_run_cases)
    case (no_tools err)
    with do_list_tools_trace[OF no_tools(1)] show ?thesis by auto
  next
    case (rounds tools w1 n c f)
    from run_rounds_session[of n ops "build_functions tools" "initial_messages query" "[]" w1]
      rounds(2) do_list_tools_trace[OF rounds(1)] show ?thesis by auto
  qed
qed

lemma process_query_first_round:
  assumes "do_list_tools ops w = (Inr tools, w1)"
    and "round_body ops (build_functions tools) (initial_messages query) [] w1
           = (c, messages', final_text', w2)"
    and "c \<noteq> Continue"
  shows "process_query ops query w =
           Some (case c of Raise err \<Rightarrow> Inl err | _ \<Rightarrow> Inr (join [CHR 0x0A] final_text'), w2)"
proof -
  have "run_rounds 0 ops (build_functions tools) (initial_messages query) [] w1
          = (Continue, initial_messages query, [], w1)" by simp
  from process_query_run_leaves[OF assms(1) this assms(2,3)] show ?thesis
    by (simp add: process_query_def)
qed

lemma strip_hello: "strip ''hello'' = ''hello''"
  by (simp add: strip_def whitespace_def)

lemma reasoning_query:
  "process_query example_ops ''hello''
     \<lparr>env = \<lparr>replies = [[reasoning_item]], stdin = [''quit''], broken_command = ''node''\<rparr>,
      session = True, trace = [Input query_prompt]\<rparr>
   = Some (Inl (RuntimeError ''Unexpected output type: reasoning''),
       \<lparr>env = \<lparr>replies = [], stdin = [''quit''], broken_command = ''node''\<rparr>,
        session = True,
        trace = [Input query_prompt, ListTools,
                 ResponsesCreate ''gpt-4'' (initial_messages ''hello'')
                   (build_functions [weather_tool]) ''auto'']\<rparr>)"
proof -
  let ?w1 = "\<lparr>env = \<lparr>replies = [[reasoning_item]], stdin = [''quit''], broken_command = ''node''\<rparr>,
      session = True, trace = [Input query_prompt, ListTools]\<rparr>"
  have h1: "do_list_tools example_ops
     \<lparr>env = \<lparr>replies = [[reasoning_item]], stdin = [''quit''], broken_command = ''node''\<rparr>,
      session = True, trace = [Input query_prompt]\<rparr> = (Inr [weather_tool], ?w1)"
    by (simp add: ex_defs)
  have h2: "round_body example_ops (build_functions [weather_tool]) (initial_messages ''hello'') [] ?w1
    = (Raise (RuntimeError ''Unexpected output type: reasoning''), initial_messages ''hello'', [],
       \<lparr>env = \<lparr>replies = [], stdin = [''quit''], broken_command = ''node''\<rparr>,
        session = True,
        trace = [Input query_prompt, ListTools,
                 ResponsesCreate ''gpt-4'' (initial_messages ''hello'')
                   (build_functions [weather_tool]) ''auto'']\<rparr>)"
    by (simp add: ex_defs)
  from process_query_first_round[OF h1 h2] show ?thesis by simp
qed

lemma plain_query:
  "process_query example_ops ''hello''
     \<lparr>env = \<lparr>replies = [[plain_message boston_answer]], stdin = [], broken_command = ''node''\<rparr>,
      session = True, trace = [Input query_prompt]\<rparr>
   = Some (Inr boston_answer,
       \<lparr>env = \<lparr>replies = [], stdin = [], broken_command = ''node''\<rparr>,
        session = True,
        trace = [Input query_prompt, ListTools,
                 ResponsesCreate ''gpt-4'' (initial_messages ''hello'')
                   (build_functions [weather_tool]) ''auto'']\<rparr>)"
proof -
  let ?w1 = "\<lparr>env = \<lparr>replies = [[plain_message boston_answer]], stdin = [], broken_command = ''node''\<rparr>,
      session = True, trace = [Input query_prompt, ListTools]\<rparr>"
  have h1: "do_list_tools example_ops
     \<lparr>env = \<lparr>replies = [[plain_message boston_answer]], stdin = [], broken_command = ''node''\<rparr>,
      session = True, trace = [Input query_prompt]\<rparr> = (Inr [weather_tool], ?w1)"
    by (simp add: ex_defs)
  have h2: "round_body example_ops (build_functions [weather_tool]) (initial_messages ''hello'') [] ?w1
    = (Break, initial_messages ''hello'', [boston_answer],
       \<lparr>env = \<lparr>replies = [], stdin = [], broken_command = ''node''\<rparr>,
        session = True,
        trace = [Input query_prompt, ListTools,
                 ResponsesCreate ''gpt-4'' (initial_messages ''hello'')
                   (build_functions [weather_tool]) ''auto'']\<rparr>)"
    by (simp add: ex_defs)
  from process_query_first_round[OF h1 h2] show ?thesis by simp
qed

subsection \<open>Errors of a query\<close>

text \<open>
  Claim C7. When \<^verbatim>\<open>process_query\<close> raises an error (an exception of the class
  \<^verbatim>\<open>Exception\<close>, which is what \<^verbatim>\<open>except Exception\<close> catches) on a line that is not
  \<^verbatim>\<open>quit\<close>, the pass of the chat loop prints \<^verbatim>\<open>Error:\<close> with the message and goes on:
  the loop continues as the loop started in the world after the print, whose first step
  is to read the next line. The print is the only thing done to the world, and
  \<^verbatim>\<open>self.session\<close> is as it was: the session is not torn down.
\<close>

theorem query_error_is_caught_and_loop_continues:
  assumes "do_input ops query_prompt w = (Inr line, w1)"
    and "lower (strip line) \<noteq> ''quit''"
    and "process_query ops (strip line) w1 = Some (Inl err, w2)"
    and "is_Exception err"
  shows "chat_iteration ops w
           = Some (Continue, do_print [PStr (CHR 0x0A # ''Error: '' @ str_error err)] w2)
         \<and> chat_while ops w
           = chat_while ops (do_print [PStr (CHR 0x0A # ''Error: '' @ str_error err)] w2)
         \<and> trace (do_print [PStr (CHR 0x0A # ''Error: '' @ str_error err)] w2)
           = trace w2 @ [Print [PStr (CHR 0x0A # ''Error: '' @ str_error err)]]
         \<and> env (do_print [PStr (CHR 0x0A # ''Error: '' @ str_error err)] w2) = env w2
         \<and> session (do_print [PStr (CHR 0x0A # ''Error: '' @ str_error err)] w2) = session w1"
proof -
  let ?w3 = "do_print [PStr (CHR 0x0A # ''Error: '' @ str_error err)] w2"
  have it: "chat_iteration ops w = Some (Continue, ?w3)"
    using assms by (simp add: chat_iteration_def except_Exception_def)
  have loop: "chat_while ops w = chat_while ops ?w3"
    by (subst chat_while.simps) (simp add: it)
  have s: "session ?w3 = session w1"
    using process_query_session[OF assms(3)] by (simp add: do_print_def)
  show ?thesis using it loop s by (simp add: do_print_def)
qed

text \<open>
  The first line makes the model answer with an item of an unknown type: the error is
  printed, the next line is read, and it is \<^verbatim>\<open>quit\<close>.
\<close>

theorem query_error_is_caught_and_loop_continues_witness:
  "chat_while example_ops (example_world [[reasoning_item]] [''hello'', ''quit''])
   = Some (Break,
       \<lparr>env = \<lparr>replies = [], stdin = [], broken_command = ''node''\<rparr>, session = True,
        trace = [Input query_prompt, ListTools,
                 ResponsesCreate ''gpt-4'' (initial_messages ''hello'')
                   (build_functions [weather_tool]) ''auto'',
                 Print [PStr (CHR 0x0A # ''Error: Unexpected output type: reasoning'')],
                 Input query_prompt]\<rparr>)"
proof -
  let ?w1 = "\<lparr>env = \<lparr>replies = [[reasoning_item]], stdin = [''quit''], broken_command = ''node''\<rparr>,
      session = True, trace = [Input query_prompt]\<rparr>"
  let ?w2 = "\<lparr>env = \<lparr>replies = [], stdin = [''quit''], broken_command = ''node''\<rparr>,
        session = True,
        trace = [Input query_prompt, ListTools,
                 ResponsesCreate ''gpt-4'' (initial_messages ''hello'')
                   (build_functions [weather_tool]) ''auto'']\<rparr>"
  let ?err = "RuntimeError ''Unexpected output type: reasoning''"
  have a1: "do_input example_ops query_prompt (example_world [[reasoning_item]] [''hello'', ''quit''])
              = (Inr ''hello'', ?w1)"
    by (simp add: do_input_def example_ops_def example_world_def emit_def)
  have a2: "lower (strip ''hello'') \<noteq> ''quit''"
    by (simp add: strip_hello lower_def)
  have a3: "process_query example_ops (strip ''hello'') ?w1 = Some (Inl ?err, ?w2)"
    by (simp only: strip_hello reasoning_query)
  have a4: "is_Exception ?err" by simp
  have next_pass: "chat_while example_ops
      (do_print [PStr (CHR 0x0A # ''Error: '' @ str_error ?err)] ?w2)
    = Some (Break,
       \<lparr>env = \<lparr>replies = [], stdin = [], broken_command = ''node''\<rparr>, session = True,
        trace = [Input query_prompt, ListTools,
                 ResponsesCreate ''gpt-4'' (initial_messages ''hello'')
                   (build_functions [weather_tool]) ''auto'',
                 Print [PStr (CHR 0x0A # ''Error: Unexpected output type: reasoning'')],
                 Input query_prompt]\<rparr>)"
    by (subst chat_while.simps)
       (simp add: chat_iteration_def do_input_def do_print_def example_ops_def emit_def
          strip_def whitespace_def lower_def lower_char_def)
  from query_error_is_caught_and_loop_continues[OF a1 a2 a3 a4] next_pass
  show ?thesis by simp
qed

text \<open>
  An error of \<^verbatim>\<open>input\<close> is caught in the same way. An exception that is not of the class
  \<^verbatim>\<open>Exception\<close> (\<^verbatim>\<open>KeyboardInterrupt\<close>, \<^verbatim>\<open>SystemExit\<close>) is not an error of the query
  and leaves the loop.
\<close>

lemma input_error_is_caught:
  assumes "do_input ops query_prompt w = (Inl err, w1)" and "is_Exception err"
  shows "chat_while ops w
           = chat_while ops (do_print [PStr (CHR 0x0A # ''Error: '' @ str_error err)] w1)"
  using assms by (subst chat_while.simps) (simp add: chat_iteration_def except_Exception_def)

lemma base_exception_leaves_the_loop:
  assumes "do_input ops query_prompt w = (Inr line, w1)"
    and "lower (strip line) \<noteq> ''quit''"
    and "process_query ops (strip line) w1 = Some (Inl err, w2)"
    and "\<not> is_Exception err"
  shows "chat_while ops w = Some (Raise err, w2)"
  using assms by (subst chat_while.simps) (simp add: chat_iteration_def except_Exception_def)

subsection \<open>Leaving the loop\<close>

text \<open>
  Claim C9, as the code has it. The line read is stripped of leading and trailing
  whitespace first. When the stripped line is \<^verbatim>\<open>quit\<close> in any letter case, the loop ends
  and the only call made is the \<^verbatim>\<open>input\<close> that read the line: neither the model nor a
  tool is invoked. Every other line is processed as a query: \<^verbatim>\<open>process_query\<close> runs on
  the stripped line, and its answer or its error is printed.
\<close>

theorem quit_after_strip_ends_the_loop:
  assumes "do_input ops query_prompt w = (Inr line, w1)"
  shows "(lower (strip line) = ''quit'' \<longrightarrow>
            chat_iteration ops w = Some (Break, w1) \<and> chat_while ops w = Some (Break, w1)
            \<and> trace w1 = trace w @ [Input query_prompt])
         \<and> (lower (strip line) \<noteq> ''quit'' \<longrightarrow>
            chat_iteration ops w =
              (case process_query ops (strip line) w1 of
                 None \<Rightarrow> None
               | Some (Inl err, w2) \<Rightarrow> Some (except_Exception err w2)
               | Some (Inr response, w2) \<Rightarrow>
                   Some (Continue, do_print [PStr (CHR 0x0A # response)] w2)))"
proof (intro conjI impI)
  assume q: "lower (strip line) = ''quit''"
  with assms show it: "chat_iteration ops w = Some (Break, w1)"
    by (simp add: chat_iteration_def)
  then show "chat_while ops w = Some (Break, w1)"
    by (subst chat_while.simps) simp
  from assms show "trace w1 = trace w @ [Input query_prompt]"
    by (auto simp: do_input_def emit_def split: prod.splits)
next
  assume "lower (strip line) \<noteq> ''quit''"
  with assms show "chat_iteration ops w =
              (case process_query ops (strip line) w1 of
                 None \<Rightarrow> None
               | Some (Inl err, w2) \<Rightarrow> Some (except_Exception err w2)
               | Some (Inr response, w2) \<Rightarrow>
                   Some (Continue, do_print [PStr (CHR 0x0A # response)] w2))"
    by (simp add: chat_iteration_def)
qed

text \<open>
  \<^verbatim>\<open>QuIt\<close> between blanks ends the loop with the scripted reply of the model unused;
  \<^verbatim>\<open>hello\<close> between blanks is answered.
\<close>

theorem quit_after_strip_ends_the_loop_witness:
  "lower (strip ''  QuIt '') = ''quit''
   \<and> chat_while example_ops (example_world [[plain_message boston_answer]] [''  QuIt ''])
       = Some (Break,
           \<lparr>env = \<lparr>replies = [[plain_message boston_answer]], stdin = [],
                   broken_command = ''node''\<rparr>,
            session = True, trace = [Input query_prompt]\<rparr>)
   \<and> lower (strip '' hello '') \<noteq> ''quit''
   \<and> chat_iteration example_ops (example_world [[plain_message boston_answer]] ['' hello ''])
       = Some (Continue,
           \<lparr>env = \<lparr>replies = [], stdin = [], broken_command = ''node''\<rparr>,
            session = True,
            trace = [Input query_prompt, ListTools,
                     ResponsesCreate ''gpt-4'' (initial_messages ''hello'')
                       (build_functions [weather_tool]) ''auto'',
                     Print [PStr (CHR 0x0A # boston_answer)]]\<rparr>)"
proof -
  let ?w1 = "\<lparr>env = \<lparr>replies = [[plain_message boston_answer]], stdin = [],
                   broken_command = ''node''\<rparr>,
            session = True, trace = [Input query_prompt]\<rparr>"
  have q: "lower (strip ''  QuIt '') = ''quit''"
    by (simp add: strip_def whitespace_def lower_def lower_char_def char_of_eq_iff)
  have h: "strip '' hello '' = ''hello''"
    by (simp add: strip_def whitespace_def)
  have nq: "lower (strip '' hello '') \<noteq> ''quit''"
    by (simp add: h lower_def)
  have i1: "do_input example_ops query_prompt
              (example_world [[plain_message boston_answer]] [''  QuIt '']) = (Inr ''  QuIt '', ?w1)"
    by (simp add: do_input_def example_ops_def example_world_def emit_def)
  have i2: "do_input example_ops query_prompt
              (example_world [[plain_message boston_answer]] ['' hello '']) = (Inr '' hello '', ?w1)"
    by (simp add: do_input_def example_ops_def example_world_def emit_def)
  from quit_after_strip_ends_the_loop[OF i1] q
  have a: "chat_while example_ops (example_world [[plain_message boston_answer]] [''  QuIt ''])
       = Some (Break, ?w1)" by simp
  from quit_after_strip_ends_the_loop[OF i2] nq
  have b: "chat_iteration example_ops (example_world [[plain_message boston_answer]] ['' hello ''])
       = (case process_query example_ops (strip '' hello '') ?w1 of
                 None \<Rightarrow> None
               | Some (Inl err, w2) \<Rightarrow> Some (except_Exception err w2)
               | Some (Inr response, w2) \<Rightarrow>
                   Some (Continue, do_print [PStr (CHR 0x0A # response)] w2))" by simp
  show ?thesis
    using q a nq by (simp add: b h plain_query do_print_def)
qed

text \<open>
  The claim as stated fails on a line that is not the token: \<^verbatim>\<open>quit\<close> after a blank
  differs from \<^verbatim>\<open>quit\<close> in every letter case, and it is not processed as a query; it ends
  the loop, the model's reply unused and nothing called but \<^verbatim>\<open>input\<close>.
\<close>

theorem quit_with_blanks_counterexample:
  "lower '' quit'' \<noteq> ''quit''
   \<and> chat_while example_ops (example_world [[plain_message boston_answer]] ['' quit''])
       = Some (Break,
           \<lparr>env = \<lparr>replies = [[plain_message boston_answer]], stdin = [],
                   broken_command = ''node''\<rparr>,
            session = True, trace = [Input query_prompt]\<rparr>)"
proof -
  have "chat_while example_ops (example_world [[plain_message boston_answer]] ['' quit''])
       = Some (Break,
           \<lparr>env = \<lparr>replies = [[plain_message boston_answer]], stdin = [],
                   broken_command = ''node''\<rparr>,
            session = True, trace = [Input query_prompt]\<rparr>)"
    by (subst chat_while.simps)
       (simp add: chat_iteration_def do_input_def example_ops_def example_world_def emit_def
          strip_def whitespace_def lower_def lower_char_def)
  then show ?thesis by (simp add: lower_def)
qed

section \<open>The function schemas the model receives\<close>

lemma weather_two_rounds:
  "run_rounds (Suc (Suc 0)) example_ops (build_functions [weather_tool])
     (initial_messages boston_query) [] (snd (do_list_tools example_ops weather_world))
   = (Break, weather_conversation, [boston_answer], weather_end)"
proof -
  have "round_body example_ops (build_functions [weather_tool]) weather_conversation []
       \<lparr>env = \<lparr>replies = [[plain_message boston_answer]], stdin = [], broken_command = ''node''\<rparr>,
       session = True,
       trace = [ListTools,
               ResponsesCreate ''gpt-4'' (initial_messages boston_query)
                 (build_functions [weather_tool]) ''auto'',
               CallTool ''get_weather'' [(''city'', ''Boston'')]]\<rparr>
       = (Break, weather_conversation, [boston_answer], weather_end)"
    by (simp add: ex_defs weather_end_def)
  with run_rounds_extend[OF weather_round] show ?thesis by simp
qed

lemma model_calls_get_the_schemas:
  assumes "do_list_tools ops w = (Inr ts, w1)"
  shows "\<forall>(msgs, fs) \<in> set (model_inputs (new_events w
            (world_of (run_rounds n ops (build_functions ts) (initial_messages query) [] w1)))).
           fs = build_functions ts"
proof -
  from do_list_tools_trace[OF assms] obtain evs0 where
    e0: "trace w1 = trace w @ evs0" "model_inputs evs0 = []" by blast
  from run_rounds_trace[of n ops "build_functions ts" "initial_messages query" "[]" w1]
  obtain evs where e: "trace (world_of (run_rounds n ops (build_functions ts)
                         (initial_messages query) [] w1)) = trace w1 @ evs"
    "\<forall>(msgs, fs) \<in> set (model_inputs evs).
        prefix (initial_messages query) msgs \<and> fs = build_functions ts" by blast
  have "new_events w (world_of (run_rounds n ops (build_functions ts)
                         (initial_messages query) [] w1)) = evs0 @ evs"
    using e0(1) e(1) by (simp add: new_events_def)
  with e0(2) e(2) show ?thesis by (auto simp: model_inputs_append)
qed

lemma run_rounds_calls_model:
  "run_rounds n ops fns m f w = (c, m', f', w') \<Longrightarrow> c \<noteq> Continue
   \<Longrightarrow> \<exists>evs. trace w' = trace w @ evs \<and> model_inputs evs \<noteq> []"
proof (induction n arbitrary: m f w)
  case 0
  then show ?case by simp
next
  case (Suc n)
  obtain c1 m1 f1 w1 where rb: "round_body ops fns m f w = (c1, m1, f1, w1)"
    by (cases "round_body ops fns m f w") auto
  from round_body_trace[OF rb] obtain evs1 where
    e1: "trace w1 = trace w @ evs1" "model_inputs evs1 = [(m, fns)]" by blast
  show ?case
  proof (cases "c1 = Continue")
    case True
    with Suc.prems rb have "run_rounds n ops fns m1 f1 w1 = (c, m', f', w')" by simp
    from Suc.IH[OF this Suc.prems(2)] obtain evs where
      "trace w' = trace w1 @ evs" by blast
    with e1 have "trace w' = trace w @ (evs1 @ evs) \<and> model_inputs (evs1 @ evs) \<noteq> []"
      by (simp add: model_inputs_append)
    then show ?thesis by blast
  next
    case False
    with Suc.prems rb have "w' = w1" by simp
    with e1 show ?thesis by auto
  qed
qed

lemma process_query_run_model_calls:
  assumes lt: "do_list_tools ops w = (Inr ts, w1)"
    and run: "process_query_run ops query w = Some (r, ms, w')"
  shows "model_inputs (new_events w w') \<noteq> []
         \<and> (\<forall>(msgs, fs) \<in> set (model_inputs (new_events w w')). fs = build_functions ts)"
  using run
proof (cases rule: process_query_run_cases)
  case (no_tools err)
  with lt show ?thesis by simp
next
  case (rounds tools w1' n c f)
  with lt have eq: "tools = ts" "w1' = w1" by simp_all
  note rr = rounds(2)[unfolded eq]
  from model_calls_get_the_schemas[OF lt, of n query] rr
  have all: "\<forall>(msgs, fs) \<in> set (model_inputs (new_events w w')). fs = build_functions ts"
    by simp
  from do_list_tools_trace[OF lt] obtain evs0 where e0: "trace w1 = trace w @ evs0" by blast
  from run_rounds_calls_model[OF rr rounds(3)] obtain evs where
    e: "trace w' = trace w1 @ evs" "model_inputs evs \<noteq> []" by blast
  have "new_events w w' = evs0 @ evs" using e0 e(1) by (simp add: new_events_def)
  with e(2) have "model_inputs (new_events w w') \<noteq> []" by (simp add: model_inputs_append)
  with all show ?thesis by simp
qed

text \<open>
  Claim C3. The function schemas are as many as the tools and in their order; the name,
  the description and the input schema of each tool are the \<^verbatim>\<open>name\<close>,
  \<^verbatim>\<open>description\<close> and \<^verbatim>\<open>parameters\<close> of the schema at the same position. And this
  list is what the model receives: when \<^verbatim>\<open>process_query\<close> has enumerated the tools
  \<open>ts\<close> and returns or raises, it has called the model at least once, and the \<^verbatim>\<open>tools\<close>
  argument of every call of the model it has made is \<open>build_functions ts\<close>. The same holds
  of the calls made in the first \<open>n\<close> passes of its loop, also in a run that never leaves it.
\<close>

theorem function_schemas_preserve_tools:
  "length (build_functions ts) = length ts
   \<and> map fn_name (build_functions ts) = map tool_name ts
   \<and> map fn_description (build_functions ts) = map tool_description ts
   \<and> map fn_parameters (build_functions ts) = map inputSchema ts
   \<and> (do_list_tools ops w = (Inr ts, w1) \<and> process_query_run ops query w = Some (r, ms, w') \<longrightarrow>
        model_inputs (new_events w w') \<noteq> []
        \<and> (\<forall>(msgs, fs) \<in> set (model_inputs (new_events w w')). fs = build_functions ts))
   \<and> (do_list_tools ops w = (Inr ts, w1) \<longrightarrow>
        (\<forall>(msgs, fs) \<in> set (model_inputs (new_events w
            (world_of (run_rounds n ops (build_functions ts) (initial_messages query) [] w1)))).
           fs = build_functions ts))"
proof (intro conjI impI)
  show "length (build_functions ts) = length ts"
    by (simp add: build_functions_def functions_loop_map)
  show "map fn_name (build_functions ts) = map tool_name ts"
    by (simp add: build_functions_def functions_loop_map tool_function_def comp_def)
  show "map fn_description (build_functions ts) = map tool_description ts"
    by (simp add: build_functions_def functions_loop_map tool_function_def comp_def)
  show "map fn_parameters (build_functions ts) = map inputSchema ts"
    by (simp add: build_functions_def functions_loop_map tool_function_def comp_def)
next
  assume a: "do_list_tools ops w = (Inr ts, w1) \<and> process_query_run ops query w = Some (r, ms, w')"
  then have lt: "do_list_tools ops w = (Inr ts, w1)"
    and run: "process_query_run ops query w = Some (r, ms, w')" by simp_all
  from process_query_run_model_calls[OF lt run]
  show "model_inputs (new_events w w') \<noteq> []"
    and "\<forall>(msgs, fs) \<in> set (model_inputs (new_events w w')). fs = build_functions ts"
    by simp_all
next
  assume "do_list_tools ops w = (Inr ts, w1)"
  then show "\<forall>(msgs, fs) \<in> set (model_inputs (new_events w
            (world_of (run_rounds n ops (build_functions ts) (initial_messages query) [] w1)))).
           fs = build_functions ts"
    by (rule model_calls_get_the_schemas)
qed

text \<open>
  The scenario, run by \<^verbatim>\<open>process_query\<close>: both calls of the model receive the schema
  of the weather tool.
\<close>

theorem function_schemas_preserve_tools_witness:
  "do_list_tools example_ops weather_world
     = (Inr [weather_tool], snd (do_list_tools example_ops weather_world))
   \<and> process_query_run example_ops boston_query weather_world
     = Some (Inr boston_answer, weather_conversation, weather_end)
   \<and> model_inputs (new_events weather_world weather_end)
     = [(initial_messages boston_query, build_functions [weather_tool]),
        (weather_conversation, build_functions [weather_tool])]
   \<and> build_functions [weather_tool]
     = [\<lparr>fn_type = ''function'', fn_name = ''get_weather'',
         fn_description = Some ''Weather of a city'', fn_parameters = [(''city'', ''string'')],
         fn_strict = False\<rparr>]"
proof -
  have lt: "do_list_tools example_ops weather_world
     = (Inr [weather_tool], snd (do_list_tools example_ops weather_world))"
    by (simp add: do_list_tools_def weather_world_def example_world_def example_ops_def)
  have calls: "model_inputs (new_events weather_world weather_end)
     = [(initial_messages boston_query, build_functions [weather_tool]),
        (weather_conversation, build_functions [weather_tool])]"
    by (simp add: new_events_def weather_world_def weather_end_def example_world_def)
  have fs: "build_functions [weather_tool]
     = [\<lparr>fn_type = ''function'', fn_name = ''get_weather'',
         fn_description = Some ''Weather of a city'', fn_parameters = [(''city'', ''string'')],
         fn_strict = False\<rparr>]"
    by (simp add: build_functions_def tool_function_def weather_tool_def)
  from function_schemas_preserve_tools[where ops = example_ops and w = weather_world
      and ts = "[weather_tool]" and ?w1.0 = "snd (do_list_tools example_ops weather_world)"
      and query = boston_query and r = "Inr boston_answer" and ms = weather_conversation
      and w' = weather_end and n = 0] lt weather_scenario
  have "model_inputs (new_events weather_world weather_end) \<noteq> []
        \<and> (\<forall>(msgs, fs) \<in> set (model_inputs (new_events weather_world weather_end)).
              fs = build_functions [weather_tool])"
    by blast
  with lt weather_scenario calls fs show ?thesis by simp
qed

end
